theory Spec2Isabelle
  imports Complex_Main "HOL-Library.Signed_Division"
begin

section \<open>Data model of the denoising command (cmd/dwidenoise.cpp)\<close>

text \<open>
  \<^verbatim>\<open>typedef float value_type;\<close> Samples are modelled as real numbers: the arithmetic
  of the source is idealised, its comparisons and control flow are kept. The window
  extractor only copies samples, so nothing proved about it depends on rounding. An
  Eigen vector is a list, an Eigen matrix the list of its columns.
\<close>

type_synonym value_type = real
type_synonym vector = "value_type list"
type_synonym matrix = "vector list"

text \<open>
  Failures of the source that end the run: an Eigen column access outside the matrix
  (an assertion failure, or undefined behaviour without assertions), a read of the
  image outside its extent, and the exception thrown on a bad option or setting.
\<close>

datatype error = ColumnOutOfRange | OutOfBoundsRead | ConfigurationError

text \<open>
  The image accessor \<^verbatim>\<open>Image<value_type>\<close>: \<^verbatim>\<open>size(axis)\<close>, the mutable cursor
  \<^verbatim>\<open>index(axis)\<close>, and the samples. \<open>voxel\<close> gives the samples along axis 3 at a
  spatial position.
\<close>

record image =
  size_of :: "nat \<Rightarrow> int"
  index :: "nat \<Rightarrow> int"
  voxel :: "int \<Rightarrow> int \<Rightarrow> int \<Rightarrow> vector"

text \<open>
  Modelled from the spec: \<^verbatim>\<open>is_out_of_bounds\<close> is declared in a header that is not
  among the sources. The spec has it test whether the position "lies within the
  volume's spatial bounds", that is, on each of the three spatial axes.
\<close>

definition is_out_of_bounds :: "image \<Rightarrow> bool" where
  "is_out_of_bounds dwi =
     (index dwi 0 < 0 \<or> size_of dwi 0 \<le> index dwi 0 \<or>
      index dwi 1 < 0 \<or> size_of dwi 1 \<le> index dwi 1 \<or>
      index dwi 2 < 0 \<or> size_of dwi 2 \<le> index dwi 2)"

text \<open>
  \<^verbatim>\<open>dwi.row(3)\<close> reads the samples along the channel axis at the cursor. The read is
  instrumented: outside the volume it is the error \<open>OutOfBoundsRead\<close>.
\<close>

definition row3 :: "image \<Rightarrow> error + vector" where
  "row3 dwi =
     (if is_out_of_bounds dwi then Inl OutOfBoundsRead
      else Inr (voxel dwi (index dwi 0) (index dwi 1) (index dwi 2)))"

text \<open>\<^verbatim>\<open>X.col(k) = v\<close> with \<^verbatim>\<open>ssize_t k\<close>: defined only for a column of the matrix.\<close>

definition set_col :: "matrix \<Rightarrow> int \<Rightarrow> vector \<Rightarrow> error + matrix" where
  "set_col M k v =
     (if 0 \<le> k \<and> k < int (length M) then Inr (M[nat k := v]) else Inl ColumnOutOfRange)"

text \<open>\<^verbatim>\<open>X.setZero()\<close> on a matrix of \<open>rows\<close> rows and \<open>cols\<close> columns.\<close>

definition setZero :: "nat \<Rightarrow> nat \<Rightarrow> matrix" where
  "setZero rows cols = replicate cols (replicate rows 0)"

text \<open>
  The state of \<^verbatim>\<open>DenoisingFunctor\<close>. The fields \<^verbatim>\<open>m, n, r, X, Xm\<close> carry a suffix,
  since a record field is a constant of the theory. \<open>sigma\<close> is \<open>None\<close> for NaN.
\<close>

record DenoisingFunctor =
  extent :: int
  m_rows :: nat
  n_cols :: nat
  r_rank :: nat
  X_mat :: matrix
  Xm_vec :: vector
  pos :: "int list"
  sigma :: "real option"

text \<open>
  The constructor: \<^verbatim>\<open>extent(size/2), m(dwi.size(3)), n(size*size*size),
  r((m<n) ? m : n), X(m,n), Xm(m), pos{{0, 0, 0}}\<close>. The division of C++ truncates
  towards zero. \<^verbatim>\<open>size\<close> is an \<^verbatim>\<open>int\<close> that the option restricts to 0..50, where
  the product cannot overflow; the unset storage of \<^verbatim>\<open>X\<close>, \<^verbatim>\<open>Xm\<close> and \<^verbatim>\<open>sigma\<close>
  is written before it is read, and is zero and NaN here.
\<close>

definition DenoisingFunctor_init :: "image \<Rightarrow> int \<Rightarrow> DenoisingFunctor" where
  "DenoisingFunctor_init dwi sz =
     (let m = nat (size_of dwi 3); n = nat (sz * sz * sz)
      in \<lparr> extent = sz sdiv 2, m_rows = m, n_cols = n,
           r_rank = (if m < n then m else n),
           X_mat = setZero m n, Xm_vec = replicate m 0,
           pos = [0, 0, 0], sigma = None \<rparr>)"

subsection \<open>The window extractor \<^verbatim>\<open>load_data\<close>\<close>

text \<open>
  The body of the innermost loop:
  \<^verbatim>\<open>if (! is_out_of_bounds(dwi)) X.col(k) = dwi.row(3).template cast<float>();\<close>
\<close>

definition visit :: "image \<Rightarrow> matrix \<Rightarrow> int \<Rightarrow> error + matrix" where
  "visit dwi M k =
     (if \<not> is_out_of_bounds dwi
      then (case row3 dwi of Inl e \<Rightarrow> Inl e | Inr v \<Rightarrow> set_col M k v)
      else Inr M)"

text \<open>
  \<^verbatim>\<open>for (...; dwi.index(0) <= pos[0]+extent; ++dwi.index(0), ++k)\<close>, entered with
  the cursor already at its first value. The loop variable is the cursor of the image,
  and \<^verbatim>\<open>k\<close> advances at every offset, inside the volume or not.
\<close>

function loop0 :: "DenoisingFunctor \<Rightarrow> image \<Rightarrow> matrix \<Rightarrow> int \<Rightarrow> error + image \<times> matrix \<times> int" where
  "loop0 F dwi M k =
     (if index dwi 0 \<le> pos F ! 0 + extent F then
        (case visit dwi M k of
           Inl e \<Rightarrow> Inl e
         | Inr M' \<Rightarrow> loop0 F (dwi\<lparr>index := (index dwi)(0 := index dwi 0 + 1)\<rparr>) M' (k + 1))
      else Inr (dwi, M, k))"
  by pat_completeness auto
termination
  by (relation "measure (\<lambda>(F, dwi, M, k). nat (pos F ! 0 + extent F + 1 - index dwi 0))") auto

declare loop0.simps [simp del]

lemma loop0_index_other:
  "loop0 F dwi M k = Inr (dwi', M', k') \<Longrightarrow> a \<noteq> 0 \<Longrightarrow> index dwi' a = index dwi a"
proof (induction F dwi M k rule: loop0.induct)
  case (1 F dwi M k)
  show ?case
  proof (cases "index dwi 0 \<le> pos F ! 0 + extent F")
    case True
    with "1.prems" obtain M1 where v: "visit dwi M k = Inr M1"
      and rest: "loop0 F (dwi\<lparr>index := (index dwi)(0 := index dwi 0 + 1)\<rparr>) M1 (k + 1) = Inr (dwi', M', k')"
      by (subst (asm) loop0.simps) (auto split: sum.splits)
    from "1.IH" [OF True v rest "1.prems"(2)] "1.prems"(2) show ?thesis by simp
  next
    case False
    with "1.prems" show ?thesis by (subst (asm) loop0.simps) simp
  qed
qed

lemma loop0_frame:
  "loop0 F dwi M k = Inr (dwi', M', k') \<Longrightarrow>
     size_of dwi' = size_of dwi \<and> voxel dwi' = voxel dwi"
proof (induction F dwi M k rule: loop0.induct)
  case (1 F dwi M k)
  show ?case
  proof (cases "index dwi 0 \<le> pos F ! 0 + extent F")
    case True
    with "1.prems" obtain M1 where v: "visit dwi M k = Inr M1"
      and rest: "loop0 F (dwi\<lparr>index := (index dwi)(0 := index dwi 0 + 1)\<rparr>) M1 (k + 1) = Inr (dwi', M', k')"
      by (subst (asm) loop0.simps) (auto split: sum.splits)
    from "1.IH" [OF True v rest] show ?thesis by simp
  next
    case False
    with "1.prems" show ?thesis by (subst (asm) loop0.simps) simp
  qed
qed

text \<open>
  \<^verbatim>\<open>for (...; dwi.index(1) <= pos[1]+extent; ++dwi.index(1))\<close> around the inner loop
  with its initialisation \<^verbatim>\<open>dwi.index(0) = pos[0]-extent\<close>. It terminates because
  the inner loop leaves \<^verbatim>\<open>index(1)\<close> alone.
\<close>

function loop1 :: "DenoisingFunctor \<Rightarrow> image \<Rightarrow> matrix \<Rightarrow> int \<Rightarrow> error + image \<times> matrix \<times> int" where
  "loop1 F dwi M k =
     (if index dwi 1 \<le> pos F ! 1 + extent F then
        (case loop0 F (dwi\<lparr>index := (index dwi)(0 := pos F ! 0 - extent F)\<rparr>) M k of
           Inl e \<Rightarrow> Inl e
         | Inr (dwi', M', k') \<Rightarrow>
             loop1 F (dwi'\<lparr>index := (index dwi')(1 := index dwi' 1 + 1)\<rparr>) M' k')
      else Inr (dwi, M, k))"
  by pat_completeness auto
termination
proof (relation "measure (\<lambda>(F, dwi, M, k). nat (pos F ! 1 + extent F + 1 - index dwi 1))")
  show "wf (measure (\<lambda>(F, dwi, M, k). nat (pos F ! 1 + extent F + 1 - index dwi 1)))"
    by simp
next
  fix F :: DenoisingFunctor and dwi :: image and M :: matrix and k :: int
    and x2 :: "image \<times> matrix \<times> int" and dwi' :: image and y :: "matrix \<times> int"
    and M' :: matrix and k' :: int
  assume le: "index dwi 1 \<le> pos F ! 1 + extent F"
    and run: "loop0 F (dwi\<lparr>index := (index dwi)(0 := pos F ! 0 - extent F)\<rparr>) M k = Inr x2"
    and x2: "(dwi', y) = x2" and y: "(M', k') = y"
  from run x2 y have "index dwi' 1 = index (dwi\<lparr>index := (index dwi)(0 := pos F ! 0 - extent F)\<rparr>) 1"
    by (intro loop0_index_other [where a = 1]) auto
  with le show "((F, dwi'\<lparr>index := (index dwi')(1 := index dwi' 1 + 1)\<rparr>, M', k'), (F, dwi, M, k))
      \<in> measure (\<lambda>(F, dwi, M, k). nat (pos F ! 1 + extent F + 1 - index dwi 1))"
    by simp
qed

declare loop1.simps [simp del]

lemma loop1_index_other:
  "loop1 F dwi M k = Inr (dwi', M', k') \<Longrightarrow> a \<noteq> 0 \<Longrightarrow> a \<noteq> 1 \<Longrightarrow> index dwi' a = index dwi a"
proof (induction F dwi M k rule: loop1.induct)
  case (1 F dwi M k)
  show ?case
  proof (cases "index dwi 1 \<le> pos F ! 1 + extent F")
    case True
    with "1.prems" obtain d1 M1 k1 where
      inner: "loop0 F (dwi\<lparr>index := (index dwi)(0 := pos F ! 0 - extent F)\<rparr>) M k = Inr (d1, M1, k1)"
      and rest: "loop1 F (d1\<lparr>index := (index d1)(1 := index d1 1 + 1)\<rparr>) M1 k1 = Inr (dwi', M', k')"
      by (subst (asm) loop1.simps) (auto split: sum.splits)
    from "1.IH" [OF True inner refl refl rest "1.prems"(2,3)]
    have "index dwi' a = index d1 a" using "1.prems"(2,3) by simp
    also from loop0_index_other [OF inner] "1.prems"(2) have "index d1 a = index dwi a" by simp
    finally show ?thesis .
  next
    case False
    with "1.prems" show ?thesis by (subst (asm) loop1.simps) simp
  qed
qed

lemma loop1_frame:
  "loop1 F dwi M k = Inr (dwi', M', k') \<Longrightarrow>
     size_of dwi' = size_of dwi \<and> voxel dwi' = voxel dwi"
proof (induction F dwi M k rule: loop1.induct)
  case (1 F dwi M k)
  show ?case
  proof (cases "index dwi 1 \<le> pos F ! 1 + extent F")
    case True
    with "1.prems" obtain d1 M1 k1 where
      inner: "loop0 F (dwi\<lparr>index := (index dwi)(0 := pos F ! 0 - extent F)\<rparr>) M k = Inr (d1, M1, k1)"
      and rest: "loop1 F (d1\<lparr>index := (index d1)(1 := index d1 1 + 1)\<rparr>) M1 k1 = Inr (dwi', M', k')"
      by (subst (asm) loop1.simps) (auto split: sum.splits)
    from "1.IH" [OF True inner refl refl rest] loop0_frame [OF inner] show ?thesis by simp
  next
    case False
    with "1.prems" show ?thesis by (subst (asm) loop1.simps) simp
  qed
qed

text \<open>
  \<^verbatim>\<open>for (...; dwi.index(2) <= pos[2]+extent; ++dwi.index(2))\<close> around the middle loop
  with its initialisation \<^verbatim>\<open>dwi.index(1) = pos[1]-extent\<close>.
\<close>

function loop2 :: "DenoisingFunctor \<Rightarrow> image \<Rightarrow> matrix \<Rightarrow> int \<Rightarrow> error + image \<times> matrix \<times> int" where
  "loop2 F dwi M k =
     (if index dwi 2 \<le> pos F ! 2 + extent F then
        (case loop1 F (dwi\<lparr>index := (index dwi)(1 := pos F ! 1 - extent F)\<rparr>) M k of
           Inl e \<Rightarrow> Inl e
         | Inr (dwi', M', k') \<Rightarrow>
             loop2 F (dwi'\<lparr>index := (index dwi')(2 := index dwi' 2 + 1)\<rparr>) M' k')
      else Inr (dwi, M, k))"
  by pat_completeness auto
termination
proof (relation "measure (\<lambda>(F, dwi, M, k). nat (pos F ! 2 + extent F + 1 - index dwi 2))")
  show "wf (measure (\<lambda>(F, dwi, M, k). nat (pos F ! 2 + extent F + 1 - index dwi 2)))"
    by simp
next
  fix F :: DenoisingFunctor and dwi :: image and M :: matrix and k :: int
    and x2 :: "image \<times> matrix \<times> int" and dwi' :: image and y :: "matrix \<times> int"
    and M' :: matrix and k' :: int
  assume le: "index dwi 2 \<le> pos F ! 2 + extent F"
    and run: "loop1 F (dwi\<lparr>index := (index dwi)(1 := pos F ! 1 - extent F)\<rparr>) M k = Inr x2"
    and x2: "(dwi', y) = x2" and y: "(M', k') = y"
  from run x2 y have "index dwi' 2 = index (dwi\<lparr>index := (index dwi)(1 := pos F ! 1 - extent F)\<rparr>) 2"
    by (intro loop1_index_other [where a = 2]) auto
  with le show "((F, dwi'\<lparr>index := (index dwi')(2 := index dwi' 2 + 1)\<rparr>, M', k'), (F, dwi, M, k))
      \<in> measure (\<lambda>(F, dwi, M, k). nat (pos F ! 2 + extent F + 1 - index dwi 2))"
    by simp
qed

declare loop2.simps [simp del]

text \<open>
  \<^verbatim>\<open>load_data\<close>: remember the cursor in \<^verbatim>\<open>pos\<close>, zero the matrix, run the three
  loops from \<^verbatim>\<open>k = 0\<close> (\<open>load_loops\<close> also returns the final \<^verbatim>\<open>k\<close>), and put the
  cursor back.
\<close>

definition load_loops :: "DenoisingFunctor \<Rightarrow> image \<Rightarrow> error + image \<times> matrix \<times> int" where
  "load_loops F dwi =
     (let F1 = F\<lparr>pos := [index dwi 0, index dwi 1, index dwi 2]\<rparr>
      in loop2 F1 (dwi\<lparr>index := (index dwi)(2 := pos F1 ! 2 - extent F1)\<rparr>)
           (setZero (m_rows F1) (n_cols F1)) 0)"

definition load_data :: "DenoisingFunctor \<Rightarrow> image \<Rightarrow> error + DenoisingFunctor \<times> image" where
  "load_data F dwi =
     (let F1 = F\<lparr>pos := [index dwi 0, index dwi 1, index dwi 2]\<rparr>
      in case load_loops F dwi of
           Inl e \<Rightarrow> Inl e
         | Inr (dwi', M', k') \<Rightarrow>
             Inr (F1\<lparr>X_mat := M'\<rparr>,
                  dwi'\<lparr>index := (index dwi')(0 := pos F1 ! 0, 1 := pos F1 ! 1, 2 := pos F1 ! 2)\<rparr>))"

subsection \<open>The component selection of \<^verbatim>\<open>operator()\<close>\<close>

text \<open>
  The singular values \<^verbatim>\<open>s\<close> come from Eigen's \<^verbatim>\<open>JacobiSVD\<close>, a library outside the
  repository; they are an input here, \<^verbatim>\<open>r\<close> of them for the thin decomposition of
  an \<^verbatim>\<open>m\<close> by \<^verbatim>\<open>n\<close> matrix.
  \<^verbatim>\<open>Eigen::VectorXf lam = s.array().square() / n;\<close>
\<close>

definition lam :: "DenoisingFunctor \<Rightarrow> vector \<Rightarrow> vector" where
  "lam F s = map (\<lambda>x. x * x / real (n_cols F)) s"

text \<open>
  \<^verbatim>\<open>for (size_t i = r; i != 0; --i) { cs += lam[i-1]; clam[i-1] = cs; }\<close>, from
  \<^verbatim>\<open>cs = 0.0\<close>. Every entry of \<^verbatim>\<open>clam\<close> is written, so its unset storage is zero here.
\<close>

fun cumulative :: "nat \<Rightarrow> real \<Rightarrow> vector \<Rightarrow> vector \<Rightarrow> vector" where
  "cumulative 0 cs l cl = cl"
| "cumulative (Suc i) cs l cl = cumulative i (cs + l ! i) l (cl[i := cs + l ! i])"

definition clam :: "DenoisingFunctor \<Rightarrow> vector \<Rightarrow> vector" where
  "clam F s = cumulative (r_rank F) 0 (lam F s) (replicate (r_rank F) 0)"

text \<open>
  The three quantities of the loop body at index \<^verbatim>\<open>p\<close>:
  \<^verbatim>\<open>gam = float(m-p) / float(n);\<close>
  \<^verbatim>\<open>sigsq1 = clam[p] / (r-p) / ((gam<1.0) ? 1.0 : gam);\<close>
  \<^verbatim>\<open>sigsq2 = (lam[p] - lam[r-1]) / 4 / std::sqrt(gam);\<close>
  In the loop \<^verbatim>\<open>p < r \<le> m\<close>, so the unsigned \<^verbatim>\<open>m-p\<close> and \<^verbatim>\<open>r-p\<close> do not wrap.
\<close>

definition gam :: "DenoisingFunctor \<Rightarrow> nat \<Rightarrow> real" where
  "gam F p = real (m_rows F - p) / real (n_cols F)"

definition sigsq1 :: "DenoisingFunctor \<Rightarrow> vector \<Rightarrow> nat \<Rightarrow> real" where
  "sigsq1 F s p = clam F s ! p / real (r_rank F - p) / (if gam F p < 1 then 1 else gam F p)"

definition sigsq2 :: "DenoisingFunctor \<Rightarrow> vector \<Rightarrow> nat \<Rightarrow> real" where
  "sigsq2 F s p = (lam F s ! p - lam F s ! (r_rank F - 1)) / 4 / sqrt (gam F p)"

text \<open>
  \<^verbatim>\<open>for (p = 0; p < r; ++p) { ...; if (sigsq2 < sigsq1) break; }\<close>. The loop returns
  \<^verbatim>\<open>p\<close> and the last value assigned to \<^verbatim>\<open>sigsq1\<close>, which is unset before the first
  iteration (the argument \<open>sq1\<close>).
\<close>

function select_loop :: "DenoisingFunctor \<Rightarrow> vector \<Rightarrow> nat \<Rightarrow> real \<Rightarrow> nat \<times> real" where
  "select_loop F s p sq1 =
     (if p < r_rank F then
        (if sigsq2 F s p < sigsq1 F s p then (p, sigsq1 F s p)
         else select_loop F s (p + 1) (sigsq1 F s p))
      else (p, sq1))"
  by pat_completeness auto
termination
  by (relation "measure (\<lambda>(F, s, p, sq1). r_rank F - p)") auto

declare select_loop.simps [simp del]

text \<open>
  After the loop: \<^verbatim>\<open>s.tail(r-p).setZero(); sigma = (p==r) ? NaN : std::sqrt(sigsq1);\<close>
  The result is \<^verbatim>\<open>p\<close>, the truncated singular values and \<^verbatim>\<open>sigma\<close>.
\<close>

definition select_components :: "DenoisingFunctor \<Rightarrow> vector \<Rightarrow> real \<Rightarrow> nat \<times> vector \<times> real option" where
  "select_components F s sq_init =
     (let (p, sq1) = select_loop F s 0 sq_init
      in (p, take (length s - (r_rank F - p)) s @ replicate (r_rank F - p) 0,
          if p = r_rank F then None else Some (sqrt sq1)))"






text \<open>
  The rule in the words of the spec, to compare with the code:
  \<open>\<sigma>\<^sub>1\<^sup>2 = clam[p] / (r - p) / max(\<gamma>, 1)\<close>, \<open>\<sigma>\<^sub>2\<^sup>2 = (\<lambda>[p] - \<lambda>[r-1]) / (4 sqrt(\<gamma>))\<close>, and the
  boundary is "the first index \<open>p\<close> where this test fails (\<open>\<sigma>\<^sub>2\<^sup>2 \<le> \<sigma>\<^sub>1\<^sup>2\<close>)", or \<open>r\<close> when there
  is none.
\<close>

definition sigma1_sq_spec :: "DenoisingFunctor \<Rightarrow> vector \<Rightarrow> nat \<Rightarrow> real" where
  "sigma1_sq_spec F s p = clam F s ! p / real (r_rank F - p) / max (gam F p) 1"

definition sigma2_sq_spec :: "DenoisingFunctor \<Rightarrow> vector \<Rightarrow> nat \<Rightarrow> real" where
  "sigma2_sq_spec F s p = (lam F s ! p - lam F s ! (r_rank F - 1)) / (4 * sqrt (gam F p))"

definition boundary_spec :: "DenoisingFunctor \<Rightarrow> vector \<Rightarrow> nat" where
  "boundary_spec F s =
     (case find (\<lambda>p. sigma2_sq_spec F s p \<le> sigma1_sq_spec F s p) [0 ..< r_rank F] of
        Some p \<Rightarrow> p | None \<Rightarrow> r_rank F)"

subsection \<open>The window size in \<^verbatim>\<open>usage\<close> and \<^verbatim>\<open>run\<close>\<close>

text \<open>\<^verbatim>\<open>#define DEFAULT_SIZE 5\<close>\<close>

definition DEFAULT_SIZE :: int where
  "DEFAULT_SIZE = 5"

text \<open>
  Modelled from the spec: the command-line parser that checks \<^verbatim>\<open>type_integer (lo, hi)\<close>
  is not among the sources. The spec has the option "restrict it to a bounded range" and
  an "invalid window size (non-positive or outside imposed bounds)" abort "before any
  work begins"; the bounds are those that \<^verbatim>\<open>usage\<close> declares.
\<close>

definition type_integer :: "int \<Rightarrow> int \<Rightarrow> int \<Rightarrow> error + int" where
  "type_integer lo hi v = (if lo \<le> v \<and> v \<le> hi then Inr v else Inl ConfigurationError)"

text \<open>
  \<^verbatim>\<open>Option ("size", ...) + Argument ("window").type_integer (0, 50)\<close>: the option is
  absent, or its integer passes the range check.
\<close>

definition size_option :: "int option \<Rightarrow> error + int option" where
  "size_option given =
     (case given of
        None \<Rightarrow> Inr None
      | Some v \<Rightarrow> (case type_integer 0 50 v of Inl e \<Rightarrow> Inl e | Inr w \<Rightarrow> Inr (Some w)))"

text \<open>
  Modelled from the spec: \<^verbatim>\<open>get_option_value\<close> is not among the sources; the window
  size "is conventionally defaulted to 5" when the option is not supplied.
\<close>

definition get_option_value :: "int option \<Rightarrow> int \<Rightarrow> int" where
  "get_option_value opt default_value = (case opt of Some v \<Rightarrow> v | None \<Rightarrow> default_value)"

text \<open>
  \<^verbatim>\<open>run\<close>, up to the construction of the functor:
  \<^verbatim>\<open>int extent = get_option_value("size", DEFAULT_SIZE);\<close>
  \<^verbatim>\<open>DenoisingFunctor< Image<value_type> > func (dwi_in, extent);\<close>
  The value is passed on as it is: \<^verbatim>\<open>run\<close> makes no check of its own.
\<close>

definition run_functor :: "image \<Rightarrow> int option \<Rightarrow> error + DenoisingFunctor" where
  "run_functor dwi_in given =
     (case size_option given of
        Inl e \<Rightarrow> Inl e
      | Inr opt \<Rightarrow> Inr (DenoisingFunctor_init dwi_in (get_option_value opt DEFAULT_SIZE)))"

section \<open>The thread count and the backend (\<^verbatim>\<open>MR::Thread\<close>)\<close>

text \<open>
  What \<^verbatim>\<open>number_of_threads\<close> reads: the values of the \<^verbatim>\<open>nthreads\<close> option on the
  command line (one per occurrence, \<^verbatim>\<open>opt[0][0]\<close> is the first), the environment
  variable, the entry of the configuration file, and what the hardware reports.
\<close>

record sources =
  nthreads_opt :: "nat list"
  MRTRIX_NTHREADS :: "string option"
  NumberOfThreads :: "int option"
  hardware_concurrency :: nat

text \<open>
  Modelled from the spec: \<^verbatim>\<open>File::Config::get_int\<close> is not among the sources; it gives
  "a persistent configuration value, defaulting to" its second argument "if the
  configuration has no explicit entry".
\<close>

definition get_int :: "int option \<Rightarrow> int \<Rightarrow> int" where
  "get_int entry default_value = (case entry of Some v \<Rightarrow> v | None \<Rightarrow> default_value)"

text \<open>
  The conversions around that call: \<^verbatim>\<open>unsigned\<close> to \<^verbatim>\<open>int\<close> for the default and
  \<^verbatim>\<open>int\<close> to \<^verbatim>\<open>size_t\<close> for the result, on 32 and 64 bits.
\<close>

definition int_of_unsigned :: "nat \<Rightarrow> int" where
  "int_of_unsigned u =
     (if u mod 2 ^ 32 < 2 ^ 31 then int (u mod 2 ^ 32) else int (u mod 2 ^ 32) - 2 ^ 32)"

definition size_t_of_int :: "int \<Rightarrow> nat" where
  "size_t_of_int i = nat (i mod 2 ^ 64)"

text \<open>
  \<^verbatim>\<open>number_of_threads\<close>, with the variable \<^verbatim>\<open>__number_of_threads\<close> passed in and
  returned (\<open>cached\<close>, initially 0). \<^verbatim>\<open>to<size_t>\<close> is not among the sources and is a
  parameter: \<open>None\<close> where it throws, and then the assignment does not happen.
\<close>

definition number_of_threads ::
  "(string \<Rightarrow> nat option) \<Rightarrow> sources \<Rightarrow> nat \<Rightarrow> (error + nat) \<times> nat" where
  "number_of_threads to_size_t src cached =
     (if cached \<noteq> 0 then (Inr cached, cached)
      else if nthreads_opt src \<noteq> [] then (Inr (nthreads_opt src ! 0), nthreads_opt src ! 0)
      else case MRTRIX_NTHREADS src of
             Some from_env \<Rightarrow>
               (case to_size_t from_env of
                  None \<Rightarrow> (Inl ConfigurationError, cached)
                | Some v \<Rightarrow> (Inr v, v))
           | None \<Rightarrow>
               (let v = size_t_of_int (get_int (NumberOfThreads src)
                          (int_of_unsigned (hardware_concurrency src)))
                in (Inr v, v)))"

text \<open>
  The function pointers \<^verbatim>\<open>print\<close> and \<^verbatim>\<open>report_to_user_func\<close> and the statics of
  \<^verbatim>\<open>__Backend\<close>. A pointer is null, one of the application's functions, or one of the
  two wrappers.
\<close>

datatype func = nullptr | app_func nat | thread_print_func | thread_report_to_user_func

record globals =
  print :: func
  report_to_user_func :: func
  previous_print_func :: func
  previous_report_to_user_func :: func
  refcount :: nat

text \<open>The constructor \<^verbatim>\<open>__Backend::__Backend ()\<close>; its two warnings change no state.\<close>

definition Backend_ctor :: "globals \<Rightarrow> globals" where
  "Backend_ctor g =
     g\<lparr> refcount := 0,
        previous_print_func := print g,
        previous_report_to_user_func := report_to_user_func g,
        print := thread_print_func,
        report_to_user_func := thread_report_to_user_func \<rparr>"

text \<open>The destructor \<^verbatim>\<open>__Backend::~__Backend ()\<close>.\<close>

definition Backend_dtor :: "globals \<Rightarrow> globals" where
  "Backend_dtor g =
     g\<lparr> print := previous_print_func g,
        report_to_user_func := previous_report_to_user_func g \<rparr>"

text \<open>
  The function that runs when a pointer is called: each wrapper takes the lock and calls
  the function recorded by the constructor.
\<close>

definition callee :: "globals \<Rightarrow> func \<Rightarrow> func" where
  "callee g f =
     (case f of
        thread_print_func \<Rightarrow> previous_print_func g
      | thread_report_to_user_func \<Rightarrow> previous_report_to_user_func g
      | _ \<Rightarrow> f)"

text \<open>
  Modelled from the spec: the reference counting is in a header that is not among the
  sources. "\<open>acquire()\<close> increments a reference count; on the transition 0 to 1 it"
  installs the wrappers (the constructor); "\<open>release()\<close> decrements the count; on the
  transition 1 to 0 it restores the original functions" (the destructor).
\<close>

definition acquire :: "globals \<Rightarrow> globals" where
  "acquire g =
     (let g1 = (if refcount g = 0 then Backend_ctor g else g)
      in g1\<lparr>refcount := refcount g1 + 1\<rparr>)"

definition release :: "globals \<Rightarrow> globals" where
  "release g =
     (let g1 = g\<lparr>refcount := refcount g - 1\<rparr>
      in if refcount g1 = 0 then Backend_dtor g1 else g1)"

section \<open>Notions used to state the properties\<close>

text \<open>A position lies in the volume; the column the extractor leaves for a position.\<close>

definition in_volume :: "image \<Rightarrow> int \<Rightarrow> int \<Rightarrow> int \<Rightarrow> bool" where
  "in_volume dwi x y z =
     (0 \<le> x \<and> x < size_of dwi 0 \<and> 0 \<le> y \<and> y < size_of dwi 1 \<and> 0 \<le> z \<and> z < size_of dwi 2)"

definition column_at :: "image \<Rightarrow> vector \<Rightarrow> int \<Rightarrow> int \<Rightarrow> int \<Rightarrow> vector" where
  "column_at dwi zc x y z = (if in_volume dwi x y z then voxel dwi x y z else zc)"

text \<open>
  The columns written by one run of the inner loop, of the middle loop from row \<open>y0\<close>
  and of the outer loop from plane \<open>z0\<close>, and the whole window around the cursor.
\<close>

definition row_cols :: "DenoisingFunctor \<Rightarrow> image \<Rightarrow> vector \<Rightarrow> int \<Rightarrow> int \<Rightarrow> matrix" where
  "row_cols F dwi zc y z =
     map (\<lambda>x. column_at dwi zc x y z) [pos F ! 0 - extent F .. pos F ! 0 + extent F]"

definition plane_cols :: "DenoisingFunctor \<Rightarrow> image \<Rightarrow> vector \<Rightarrow> int \<Rightarrow> int \<Rightarrow> matrix" where
  "plane_cols F dwi zc y0 z =
     concat (map (\<lambda>y. row_cols F dwi zc y z) [y0 .. pos F ! 1 + extent F])"

definition window_cols :: "DenoisingFunctor \<Rightarrow> image \<Rightarrow> vector \<Rightarrow> int \<Rightarrow> matrix" where
  "window_cols F dwi zc z0 =
     concat (map (\<lambda>z. plane_cols F dwi zc (pos F ! 1 - extent F) z) [z0 .. pos F ! 2 + extent F])"

definition window :: "image \<Rightarrow> int \<Rightarrow> vector \<Rightarrow> matrix" where
  "window dwi e zc =
     concat (map (\<lambda>z. concat (map (\<lambda>y. map (\<lambda>x. column_at dwi zc x y z)
                                            [index dwi 0 - e .. index dwi 0 + e])
                              [index dwi 1 - e .. index dwi 1 + e]))
                 [index dwi 2 - e .. index dwi 2 + e])"

text \<open>
  The value of \<^verbatim>\<open>k\<close> when the loops reach the offset \<open>(dx, dy, dz)\<close>: the outer loop
  runs over \<open>dz\<close>, the inner one over \<open>dx\<close>.
\<close>

definition column_index :: "int \<Rightarrow> int \<Rightarrow> int \<Rightarrow> int \<Rightarrow> nat" where
  "column_index e dx dy dz = nat (((dz + e) * (2 * e + 1) + (dy + e)) * (2 * e + 1) + (dx + e))"

text \<open>
  Inputs for the examples: a 2 x 2 x 2 volume of one channel with the cursor at a corner,
  a 5 x 5 x 5 volume of one channel with the cursor at its centre, a 7 x 7 x 7 volume of
  two channels, and a parser of the environment variable that knows two numerals.
\<close>

definition example_volume :: image where
  "example_volume =
     \<lparr> size_of = (\<lambda>a. if a = 3 then 1 else 2), index = (\<lambda>a. 0),
       voxel = (\<lambda>x y z. [real_of_int (x + 2 * y + 4 * z + 1)]) \<rparr>"

definition interior_volume :: image where
  "interior_volume =
     \<lparr> size_of = (\<lambda>a. if a = 3 then 1 else 5), index = (\<lambda>a. 2), voxel = (\<lambda>x y z. [1]) \<rparr>"

definition two_channel_volume :: image where
  "two_channel_volume =
     \<lparr> size_of = (\<lambda>a. if a = 3 then 2 else 7), index = (\<lambda>a. 3), voxel = (\<lambda>x y z. [1, 1]) \<rparr>"



definition parse_zero_or_four :: "string \<Rightarrow> nat option" where
  "parse_zero_or_four str = (if str = ''0'' then Some 0 else if str = ''4'' then Some 4 else None)"

section \<open>The window extractor\<close>

subsection \<open>What one run of each loop writes\<close>

lemma visit_append:
  assumes "0 < j"
  shows "visit dwi (A @ replicate j zc) (int (length A)) =
     Inr (A @ [column_at dwi zc (index dwi 0) (index dwi 1) (index dwi 2)] @ replicate (j - 1) zc)"
proof -
  from assms obtain j' where j: "j = Suc j'" by (cases j) auto
  show ?thesis
    unfolding j visit_def row3_def set_col_def column_at_def in_volume_def is_out_of_bounds_def
    by (auto simp: list_update_append)
qed

lemma loop0_run:
  assumes "M = A @ replicate j zc" "k = int (length A)"
    and "nat (pos F ! 0 + extent F + 1 - index dwi 0) \<le> j"
  shows "\<exists>dwi'. loop0 F dwi M k =
     Inr (dwi', A @ map (\<lambda>x. column_at dwi zc x (index dwi 1) (index dwi 2))
                     [index dwi 0 .. pos F ! 0 + extent F]
                @ replicate (j - nat (pos F ! 0 + extent F + 1 - index dwi 0)) zc,
          k + int (nat (pos F ! 0 + extent F + 1 - index dwi 0)))"
  using assms
proof (induction F dwi M k arbitrary: A j rule: loop0.induct)
  case (1 F dwi M k)
  let ?hi = "pos F ! 0 + extent F"
  show ?case
  proof (cases "index dwi 0 \<le> ?hi")
    case True
    let ?c = "column_at dwi zc (index dwi 0) (index dwi 1) (index dwi 2)"
    let ?d = "dwi\<lparr>index := (index dwi)(0 := index dwi 0 + 1)\<rparr>"
    from True "1.prems" have j: "0 < j" by simp
    have v: "visit dwi M k = Inr ((A @ [?c]) @ replicate (j - 1) zc)"
      using visit_append [OF j, of dwi A zc] "1.prems"(1,2) by simp
    have k1: "k + 1 = int (length (A @ [?c]))" using "1.prems"(2) by simp
    have le: "nat (?hi + 1 - index ?d 0) \<le> j - 1" using "1.prems"(3) True by simp
    from "1.IH" [OF True v refl k1 le]
    obtain dwi' where run: "loop0 F ?d ((A @ [?c]) @ replicate (j - 1) zc) (k + 1) =
        Inr (dwi', (A @ [?c]) @ map (\<lambda>x. column_at ?d zc x (index ?d 1) (index ?d 2))
                     [index ?d 0 .. ?hi]
                @ replicate (j - 1 - nat (?hi + 1 - index ?d 0)) zc,
          k + 1 + int (nat (?hi + 1 - index ?d 0)))"
      by blast
    have col: "column_at ?d zc = column_at dwi zc"
      by (simp add: column_at_def in_volume_def fun_eq_iff)
    have up: "[index dwi 0 .. ?hi] = index dwi 0 # [index dwi 0 + 1 .. ?hi]"
      using True by (simp add: upto_rec1)
    have cnt: "j - 1 - nat (?hi + 1 - index ?d 0) = j - nat (?hi + 1 - index dwi 0)"
      using True by simp
    have kk: "k + 1 + int (nat (?hi + 1 - index ?d 0)) = k + int (nat (?hi + 1 - index dwi 0))"
      using True by simp
    show ?thesis
      apply (subst loop0.simps)
      using True v run col up cnt kk by simp
  next
    case False
    then show ?thesis
      using "1.prems" by (subst loop0.simps) simp
  qed
qed

lemma length_row_cols: "length (row_cols F dwi zc y z) = nat (2 * extent F + 1)"
  by (simp add: row_cols_def algebra_simps)

lemma length_plane_cols:
  "length (plane_cols F dwi zc y0 z) = nat (pos F ! 1 + extent F + 1 - y0) * nat (2 * extent F + 1)"
  by (simp add: plane_cols_def length_concat comp_def length_row_cols sum_list_triv algebra_simps)

lemma length_window_cols:
  "length (window_cols F dwi zc z0) =
     nat (pos F ! 2 + extent F + 1 - z0) * (nat (2 * extent F + 1) * nat (2 * extent F + 1))"
  by (simp add: window_cols_def length_concat comp_def length_plane_cols sum_list_triv algebra_simps)

lemma column_at_frame:
  "size_of d = size_of dwi \<Longrightarrow> voxel d = voxel dwi \<Longrightarrow> column_at d zc = column_at dwi zc"
  by (simp add: column_at_def in_volume_def fun_eq_iff)

lemma loop1_run:
  assumes "M = A @ replicate j zc" "k = int (length A)"
    and "nat (pos F ! 1 + extent F + 1 - index dwi 1) * nat (2 * extent F + 1) \<le> j"
  shows "\<exists>dwi'. loop1 F dwi M k =
     Inr (dwi', A @ plane_cols F dwi zc (index dwi 1) (index dwi 2)
                @ replicate (j - nat (pos F ! 1 + extent F + 1 - index dwi 1) * nat (2 * extent F + 1)) zc,
          k + int (nat (pos F ! 1 + extent F + 1 - index dwi 1) * nat (2 * extent F + 1)))"
  using assms
proof (induction F dwi M k arbitrary: A j rule: loop1.induct)
  case (1 F dwi M k)
  let ?hi = "pos F ! 1 + extent F"
  let ?w = "nat (2 * extent F + 1)"
  show ?case
  proof (cases "index dwi 1 \<le> ?hi")
    case True
    let ?d0 = "dwi\<lparr>index := (index dwi)(0 := pos F ! 0 - extent F)\<rparr>"
    let ?row = "row_cols F dwi zc (index dwi 1) (index dwi 2)"
    have rows: "nat (?hi + 1 - index dwi 1) = Suc (nat (?hi - index dwi 1))"
      using True by simp
    have w0: "nat (pos F ! 0 + extent F + 1 - index ?d0 0) = ?w"
      by (simp add: algebra_simps)
    from "1.prems"(3) rows have wj: "?w \<le> j" by simp
    have c0: "column_at ?d0 zc = column_at dwi zc"
      by (rule column_at_frame) simp_all
    from loop0_run [OF "1.prems"(1,2), of F ?d0] w0 wj
    obtain d1 where inner: "loop0 F ?d0 M k =
        Inr (d1, (A @ ?row) @ replicate (j - ?w) zc, k + int ?w)"
      by (auto simp: row_cols_def c0)
    have i1: "index d1 1 = index dwi 1" and i2: "index d1 2 = index dwi 2"
      using loop0_index_other [OF inner, of 1] loop0_index_other [OF inner, of 2] by simp_all
    have fr: "column_at d1 zc = column_at dwi zc"
      using loop0_frame [OF inner] by (intro column_at_frame) simp_all
    let ?d = "d1\<lparr>index := (index d1)(1 := index d1 1 + 1)\<rparr>"
    have fr': "column_at ?d zc = column_at dwi zc"
      using loop0_frame [OF inner] by (intro column_at_frame) simp_all
    have k1: "k + int ?w = int (length (A @ ?row))"
      using "1.prems"(2) by (simp add: length_row_cols)
    have le: "nat (?hi + 1 - index ?d 1) * ?w \<le> j - ?w"
      using "1.prems"(3) rows i1 by (simp add: algebra_simps)
    from "1.IH" [OF True inner refl refl refl k1 le]
    obtain dwi' where run: "loop1 F ?d ((A @ ?row) @ replicate (j - ?w) zc) (k + int ?w) =
        Inr (dwi', (A @ ?row) @ plane_cols F ?d zc (index ?d 1) (index ?d 2)
               @ replicate (j - ?w - nat (?hi + 1 - index ?d 1) * ?w) zc,
             k + int ?w + int (nat (?hi + 1 - index ?d 1) * ?w))"
      by blast
    have pl: "plane_cols F ?d zc (index ?d 1) (index ?d 2) =
        plane_cols F dwi zc (index dwi 1 + 1) (index dwi 2)"
      using fr' i1 i2 by (simp add: plane_cols_def row_cols_def)
    have up: "plane_cols F dwi zc (index dwi 1) (index dwi 2) =
        ?row @ plane_cols F dwi zc (index dwi 1 + 1) (index dwi 2)"
      using True by (simp add: plane_cols_def upto_rec1)
    have cnt: "j - ?w - nat (?hi + 1 - index ?d 1) * ?w = j - nat (?hi + 1 - index dwi 1) * ?w"
      using rows i1 by (simp add: algebra_simps)
    have kk: "k + int ?w + int (nat (?hi + 1 - index ?d 1) * ?w) =
        k + int (nat (?hi + 1 - index dwi 1) * ?w)"
      using rows i1 by (simp add: algebra_simps)
    show ?thesis
      apply (subst loop1.simps)
      using True inner run pl up cnt kk by simp
  next
    case False
    then show ?thesis
      using "1.prems" by (subst loop1.simps) (simp add: plane_cols_def)
  qed
qed

lemma loop2_index_other:
  "loop2 F dwi M k = Inr (dwi', M', k') \<Longrightarrow> a \<noteq> 0 \<Longrightarrow> a \<noteq> 1 \<Longrightarrow> a \<noteq> 2 \<Longrightarrow>
     index dwi' a = index dwi a"
proof (induction F dwi M k rule: loop2.induct)
  case (1 F dwi M k)
  show ?case
  proof (cases "index dwi 2 \<le> pos F ! 2 + extent F")
    case True
    with "1.prems" obtain d1 M1 k1 where
      inner: "loop1 F (dwi\<lparr>index := (index dwi)(1 := pos F ! 1 - extent F)\<rparr>) M k = Inr (d1, M1, k1)"
      and rest: "loop2 F (d1\<lparr>index := (index d1)(2 := index d1 2 + 1)\<rparr>) M1 k1 = Inr (dwi', M', k')"
      by (subst (asm) loop2.simps) (auto split: sum.splits)
    from "1.IH" [OF True inner refl refl rest "1.prems"(2,3,4)]
    have "index dwi' a = index d1 a" using "1.prems"(2,3,4) by simp
    also from loop1_index_other [OF inner] "1.prems"(2,3) have "index d1 a = index dwi a" by simp
    finally show ?thesis .
  next
    case False
    with "1.prems" show ?thesis by (subst (asm) loop2.simps) simp
  qed
qed

lemma loop2_frame:
  "loop2 F dwi M k = Inr (dwi', M', k') \<Longrightarrow>
     size_of dwi' = size_of dwi \<and> voxel dwi' = voxel dwi"
proof (induction F dwi M k rule: loop2.induct)
  case (1 F dwi M k)
  show ?case
  proof (cases "index dwi 2 \<le> pos F ! 2 + extent F")
    case True
    with "1.prems" obtain d1 M1 k1 where
      inner: "loop1 F (dwi\<lparr>index := (index dwi)(1 := pos F ! 1 - extent F)\<rparr>) M k = Inr (d1, M1, k1)"
      and rest: "loop2 F (d1\<lparr>index := (index d1)(2 := index d1 2 + 1)\<rparr>) M1 k1 = Inr (dwi', M', k')"
      by (subst (asm) loop2.simps) (auto split: sum.splits)
    from "1.IH" [OF True inner refl refl rest] loop1_frame [OF inner] show ?thesis by simp
  next
    case False
    with "1.prems" show ?thesis by (subst (asm) loop2.simps) simp
  qed
qed

lemma iter_le: "Suc c * W \<le> j \<Longrightarrow> c * W \<le> j - W" for W :: nat
  by simp

lemma iter_diff: "j - W - c * W = j - Suc c * W" for W :: nat
  by simp

lemma iter_add: "k + int W + int (c * W) = k + int (Suc c * W)" for W :: nat
  by simp

lemma loop2_run:
  assumes "M = A @ replicate j zc" "k = int (length A)"
    and "nat (pos F ! 2 + extent F + 1 - index dwi 2) * (nat (2 * extent F + 1) * nat (2 * extent F + 1)) \<le> j"
  shows "\<exists>dwi'. loop2 F dwi M k =
     Inr (dwi', A @ window_cols F dwi zc (index dwi 2)
                @ replicate (j - nat (pos F ! 2 + extent F + 1 - index dwi 2)
                                   * (nat (2 * extent F + 1) * nat (2 * extent F + 1))) zc,
          k + int (nat (pos F ! 2 + extent F + 1 - index dwi 2)
                     * (nat (2 * extent F + 1) * nat (2 * extent F + 1))))"
  using assms
proof (induction F dwi M k arbitrary: A j rule: loop2.induct)
  case (1 F dwi M k)
  let ?hi = "pos F ! 2 + extent F"
  let ?w = "nat (2 * extent F + 1)"
  show ?case
  proof (cases "index dwi 2 \<le> ?hi")
    case True
    let ?d0 = "dwi\<lparr>index := (index dwi)(1 := pos F ! 1 - extent F)\<rparr>"
    let ?pl = "plane_cols F dwi zc (pos F ! 1 - extent F) (index dwi 2)"
    have rows: "nat (?hi + 1 - index dwi 2) = Suc (nat (?hi - index dwi 2))"
      using True by simp
    have w0: "nat (pos F ! 1 + extent F + 1 - index ?d0 1) = ?w"
      by (simp add: algebra_simps)
    from "1.prems"(3) rows have wj: "?w * ?w \<le> j" by simp
    have c0: "column_at ?d0 zc = column_at dwi zc"
      by (rule column_at_frame) simp_all
    have pl0: "plane_cols F ?d0 zc (index ?d0 1) (index ?d0 2) = ?pl"
      unfolding plane_cols_def row_cols_def c0 by simp
    have le0: "nat (pos F ! 1 + extent F + 1 - index ?d0 1) * ?w \<le> j"
      unfolding w0 by (rule wj)
    have "\<exists>dwi'. loop1 F ?d0 M k =
        Inr (dwi', A @ ?pl @ replicate (j - ?w * ?w) zc, k + int (?w * ?w))"
      using loop1_run [OF "1.prems"(1,2) le0] unfolding w0 pl0 .
    then obtain d1 where inner: "loop1 F ?d0 M k =
        Inr (d1, (A @ ?pl) @ replicate (j - ?w * ?w) zc, k + int (?w * ?w))"
      by auto
    have i2: "index d1 2 = index dwi 2"
      using loop1_index_other [OF inner, of 2] by simp
    let ?d = "d1\<lparr>index := (index d1)(2 := index d1 2 + 1)\<rparr>"
    have fr': "column_at ?d zc = column_at dwi zc"
      using loop1_frame [OF inner] by (intro column_at_frame) simp_all
    have k1: "k + int (?w * ?w) = int (length (A @ ?pl))"
      using "1.prems"(2) w0 by (simp add: length_plane_cols algebra_simps)
    have rest: "nat (?hi + 1 - index ?d 2) = nat (?hi - index dwi 2)"
      using i2 by simp
    have le: "nat (?hi + 1 - index ?d 2) * (?w * ?w) \<le> j - ?w * ?w"
      unfolding rest using "1.prems"(3) unfolding rows by (rule iter_le)
    from "1.IH" [OF True inner refl refl refl k1 le]
    obtain dwi' where run: "loop2 F ?d ((A @ ?pl) @ replicate (j - ?w * ?w) zc) (k + int (?w * ?w)) =
        Inr (dwi', (A @ ?pl) @ window_cols F ?d zc (index ?d 2)
               @ replicate (j - ?w * ?w - nat (?hi + 1 - index ?d 2) * (?w * ?w)) zc,
             k + int (?w * ?w) + int (nat (?hi + 1 - index ?d 2) * (?w * ?w)))"
      by blast
    have pl: "window_cols F ?d zc (index ?d 2) = window_cols F dwi zc (index dwi 2 + 1)"
      using fr' i2 by (simp add: window_cols_def plane_cols_def row_cols_def)
    have up: "window_cols F dwi zc (index dwi 2) = ?pl @ window_cols F dwi zc (index dwi 2 + 1)"
      using True by (simp add: window_cols_def upto_rec1)
    have cnt: "j - ?w * ?w - nat (?hi + 1 - index ?d 2) * (?w * ?w) =
        j - nat (?hi + 1 - index dwi 2) * (?w * ?w)"
      unfolding rest rows by (rule iter_diff)
    have kk: "k + int (?w * ?w) + int (nat (?hi + 1 - index ?d 2) * (?w * ?w)) =
        k + int (nat (?hi + 1 - index dwi 2) * (?w * ?w))"
      unfolding rest rows by (rule iter_add)
    show ?thesis
      apply (subst loop2.simps)
      using True inner run pl up cnt kk by simp
  next
    case False
    then show ?thesis
      using "1.prems" by (subst loop2.simps) (simp add: window_cols_def)
  qed
qed

lemma length_window: "length (window dwi e zc) = nat (2 * e + 1) ^ 3"
  by (simp add: window_def length_concat comp_def sum_list_triv algebra_simps power3_eq_cube)

lemma load_loops_run:
  assumes "nat (2 * extent F + 1) ^ 3 \<le> n_cols F"
  shows "\<exists>dwi'. load_loops F dwi =
     Inr (dwi', window dwi (extent F) (replicate (m_rows F) 0)
                @ replicate (n_cols F - nat (2 * extent F + 1) ^ 3) (replicate (m_rows F) 0),
          int (nat (2 * extent F + 1) ^ 3))"
proof -
  let ?F = "F\<lparr>pos := [index dwi 0, index dwi 1, index dwi 2]\<rparr>"
  let ?d = "dwi\<lparr>index := (index dwi)(2 := index dwi 2 - extent F)\<rparr>"
  let ?zc = "replicate (m_rows F) (0::real)"
  let ?w = "nat (2 * extent F + 1)"
  have M: "setZero (m_rows F) (n_cols F) = [] @ replicate (n_cols F) ?zc"
    by (simp add: setZero_def)
  have k: "(0::int) = int (length ([] :: matrix))" by simp
  have e: "extent ?F = extent F" by simp
  have cnt: "nat (pos ?F ! 2 + extent F + 1 - index ?d 2) = ?w"
    by (simp add: algebra_simps)
  have le: "nat (pos ?F ! 2 + extent ?F + 1 - index ?d 2)
      * (nat (2 * extent ?F + 1) * nat (2 * extent ?F + 1)) \<le> n_cols F"
    unfolding e cnt using assms by (simp add: power3_eq_cube)
  have c0: "column_at ?d ?zc = column_at dwi ?zc"
    by (rule column_at_frame) simp_all
  have win: "window_cols ?F ?d ?zc (index ?d 2) = window dwi (extent F) ?zc"
    unfolding window_cols_def plane_cols_def row_cols_def window_def c0 by simp
  have p3: "?w ^ 3 = ?w * (?w * ?w)" by (simp add: power3_eq_cube)
  have start: "load_loops F dwi = loop2 ?F ?d (setZero (m_rows F) (n_cols F)) 0"
    by (simp add: load_loops_def Let_def)
  from loop2_run [OF M k le]
  have "\<exists>dwi'. loop2 ?F ?d (setZero (m_rows F) (n_cols F)) 0 =
     Inr (dwi', window dwi (extent F) ?zc @ replicate (n_cols F - ?w * (?w * ?w)) ?zc,
          int (?w * (?w * ?w)))"
    by (simp only: e cnt win append_Nil add_0)
  then show ?thesis
    unfolding start p3 .
qed

lemma cursor_restored:
  assumes "loop2 F d0 M k = Inr (dwi', M', k')"
    and "size_of d0 = size_of dwi" "voxel d0 = voxel dwi"
    and "\<And>a. a \<noteq> 0 \<Longrightarrow> a \<noteq> 1 \<Longrightarrow> a \<noteq> 2 \<Longrightarrow> index d0 a = index dwi a"
  shows "dwi'\<lparr>index := (index dwi')(0 := index dwi 0, 1 := index dwi 1, 2 := index dwi 2)\<rparr> = dwi"
proof -
  have "(index dwi')(0 := index dwi 0, 1 := index dwi 1, 2 := index dwi 2) = index dwi"
  proof
    fix a
    show "((index dwi')(0 := index dwi 0, 1 := index dwi 1, 2 := index dwi 2)) a = index dwi a"
      using loop2_index_other [OF assms(1), of a] assms(4) [of a] by auto
  qed
  with loop2_frame [OF assms(1)] assms(2,3) show ?thesis by simp
qed

lemma load_data_restores:
  assumes "load_data F dwi = Inr (F', dwi')"
  shows "dwi' = dwi"
proof -
  let ?F = "F\<lparr>pos := [index dwi 0, index dwi 1, index dwi 2]\<rparr>"
  let ?d = "dwi\<lparr>index := (index dwi)(2 := pos ?F ! 2 - extent ?F)\<rparr>"
  from assms obtain d1 M1 k1 where
    run: "loop2 ?F ?d (setZero (m_rows ?F) (n_cols ?F)) 0 = Inr (d1, M1, k1)"
    and d: "dwi' = d1\<lparr>index := (index d1)(0 := index dwi 0, 1 := index dwi 1, 2 := index dwi 2)\<rparr>"
    by (auto simp: load_data_def load_loops_def Let_def split: sum.splits)
  show ?thesis
    unfolding d by (rule cursor_restored [OF run]) simp_all
qed

lemma load_data_run:
  assumes "nat (2 * extent F + 1) ^ 3 \<le> n_cols F"
  shows "load_data F dwi =
     Inr (F\<lparr>pos := [index dwi 0, index dwi 1, index dwi 2],
            X_mat := window dwi (extent F) (replicate (m_rows F) 0)
                @ replicate (n_cols F - nat (2 * extent F + 1) ^ 3) (replicate (m_rows F) 0)\<rparr>,
          dwi)"
proof -
  from load_loops_run [OF assms, of dwi] obtain d1 where
    run: "load_loops F dwi =
     Inr (d1, window dwi (extent F) (replicate (m_rows F) 0)
                @ replicate (n_cols F - nat (2 * extent F + 1) ^ 3) (replicate (m_rows F) 0),
          int (nat (2 * extent F + 1) ^ 3))"
    by blast
  then obtain F' dwi' where ld: "load_data F dwi = Inr (F', dwi')"
    and F': "F' = F\<lparr>pos := [index dwi 0, index dwi 1, index dwi 2],
            X_mat := window dwi (extent F) (replicate (m_rows F) 0)
                @ replicate (n_cols F - nat (2 * extent F + 1) ^ 3) (replicate (m_rows F) 0)\<rparr>"
    by (simp add: load_data_def Let_def)
  from load_data_restores [OF ld] ld F' show ?thesis by simp
qed

subsection \<open>The column of an offset\<close>

lemma nth_concat_uniform:
  "(\<And>ys. ys \<in> set xss \<Longrightarrow> length ys = w) \<Longrightarrow> i < length xss \<Longrightarrow> j < w \<Longrightarrow>
     concat xss ! (i * w + j) = xss ! i ! j"
proof (induction xss arbitrary: i)
  case Nil
  then show ?case by simp
next
  case (Cons ys xss)
  have w: "length ys = w" using Cons.prems(1) by simp
  show ?case
  proof (cases i)
    case 0
    with Cons.prems w show ?thesis by (simp add: nth_append)
  next
    case (Suc i')
    with Cons.prems have "concat xss ! (i' * w + j) = xss ! i' ! j"
      by (intro Cons.IH) auto
    with Suc w show ?thesis by (simp add: nth_append)
  qed
qed

lemma nth_window:
  assumes "ix < nat (2 * e + 1)" "iy < nat (2 * e + 1)" "iz < nat (2 * e + 1)"
  shows "window dwi e zc ! ((iz * nat (2 * e + 1) + iy) * nat (2 * e + 1) + ix) =
     column_at dwi zc (index dwi 0 - e + int ix) (index dwi 1 - e + int iy) (index dwi 2 - e + int iz)"
proof -
  let ?w = "nat (2 * e + 1)"
  let ?xs = "[index dwi 0 - e .. index dwi 0 + e]"
  let ?ys = "[index dwi 1 - e .. index dwi 1 + e]"
  let ?zs = "[index dwi 2 - e .. index dwi 2 + e]"
  let ?row = "\<lambda>z y. map (\<lambda>x. column_at dwi zc x y z) ?xs"
  let ?plane = "\<lambda>z. concat (map (?row z) ?ys)"
  have lx: "length ?xs = ?w" and ly: "length ?ys = ?w" and lz: "length ?zs = ?w"
    by (simp_all add: algebra_simps)
  have lp: "length (?plane z) = ?w * ?w" for z
    by (simp add: length_concat comp_def sum_list_triv algebra_simps)
  have idx: "(iz * ?w + iy) * ?w + ix = iz * (?w * ?w) + (iy * ?w + ix)"
    by (simp add: algebra_simps)
  have inner: "iy * ?w + ix < ?w * ?w"
  proof -
    have "iy * ?w + ix < iy * ?w + ?w" using assms(1) by simp
    also have "\<dots> = Suc iy * ?w" by simp
    also have "\<dots> \<le> ?w * ?w" using assms(2) by (intro mult_le_mono1) simp
    finally show ?thesis .
  qed
  have "window dwi e zc ! (iz * (?w * ?w) + (iy * ?w + ix)) = map ?plane ?zs ! iz ! (iy * ?w + ix)"
    unfolding window_def
    by (rule nth_concat_uniform) (use assms(3) lz lp inner in auto)
  also have "\<dots> = ?plane (?zs ! iz) ! (iy * ?w + ix)"
    using assms(3) lz by simp
  also have "\<dots> = map (?row (?zs ! iz)) ?ys ! iy ! ix"
    by (rule nth_concat_uniform) (use assms(1,2) lx ly in auto)
  also have "\<dots> = column_at dwi zc (?xs ! ix) (?ys ! iy) (?zs ! iz)"
    using assms(1,2) lx ly by simp
  also have "?xs ! ix = index dwi 0 - e + int ix" using assms(1) by simp
  also have "?ys ! iy = index dwi 1 - e + int iy" using assms(2) by simp
  also have "?zs ! iz = index dwi 2 - e + int iz" using assms(3) by simp
  finally show ?thesis unfolding idx .
qed

lemma nth_window_offset:
  assumes "- e \<le> dx" "dx \<le> e" "- e \<le> dy" "dy \<le> e" "- e \<le> dz" "dz \<le> e"
  shows "window dwi e zc ! column_index e dx dy dz =
     column_at dwi zc (index dwi 0 + dx) (index dwi 1 + dy) (index dwi 2 + dz)"
proof -
  let ?w = "nat (2 * e + 1)"
  have e0: "0 \<le> e" using assms(1,2) by simp
  have b: "nat (dx + e) < ?w" "nat (dy + e) < ?w" "nat (dz + e) < ?w"
    using assms by simp_all
  have idx: "column_index e dx dy dz = (nat (dz + e) * ?w + nat (dy + e)) * ?w + nat (dx + e)"
    using assms e0 unfolding column_index_def
    by (simp add: nat_add_distrib nat_mult_distrib)
  show ?thesis
    unfolding idx using nth_window [OF b, of dwi zc] assms by simp
qed

lemma odd_window:
  fixes s :: int
  assumes "0 < s" "odd s"
  shows "2 * (s sdiv 2) + 1 = s" "0 \<le> s sdiv 2"
  using assms by (simp_all add: signed_divide_int_def)

lemma centre_column:
  assumes "0 \<le> e"
  shows "nat ((2 * e + 1) ^ 3) div 2 = column_index e 0 0 0"
proof -
  have "(2 * e + 1) ^ 3 = 2 * ((e * (2 * e + 1) + e) * (2 * e + 1) + e) + 1"
    by (simp add: power3_eq_cube algebra_simps)
  moreover have "0 \<le> (e * (2 * e + 1) + e) * (2 * e + 1) + e"
    using assms by simp
  ultimately have "nat ((2 * e + 1) ^ 3) = 2 * nat ((e * (2 * e + 1) + e) * (2 * e + 1) + e) + 1"
    by (simp add: nat_add_distrib nat_mult_distrib)
  then show ?thesis
    by (simp add: column_index_def)
qed

subsection \<open>No read outside the volume\<close>

lemma visit_no_oob: "visit dwi M k \<noteq> Inl OutOfBoundsRead"
  by (simp add: visit_def row3_def set_col_def)

lemma loop0_no_oob: "loop0 F dwi M k \<noteq> Inl OutOfBoundsRead"
proof (induction F dwi M k rule: loop0.induct)
  case (1 F dwi M k)
  show ?case
  proof (cases "visit dwi M k")
    case (Inl e)
    with visit_no_oob [of dwi M k] show ?thesis
      by (subst loop0.simps) auto
  next
    case (Inr M')
    with "1.IH" show ?thesis
      by (subst loop0.simps) auto
  qed
qed

lemma loop1_no_oob: "loop1 F dwi M k \<noteq> Inl OutOfBoundsRead"
proof (induction F dwi M k rule: loop1.induct)
  case (1 F dwi M k)
  let ?inner = "loop0 F (dwi\<lparr>index := (index dwi)(0 := pos F ! 0 - extent F)\<rparr>) M k"
  show ?case
  proof (cases ?inner)
    case (Inl e)
    with loop0_no_oob [of F _ M k] show ?thesis
      by (subst loop1.simps) auto
  next
    case (Inr res)
    obtain d1 M1 k1 where res: "res = (d1, M1, k1)" by (cases res) auto
    with Inr "1.IH" show ?thesis
      by (subst loop1.simps) auto
  qed
qed

lemma loop2_no_oob: "loop2 F dwi M k \<noteq> Inl OutOfBoundsRead"
proof (induction F dwi M k rule: loop2.induct)
  case (1 F dwi M k)
  let ?inner = "loop1 F (dwi\<lparr>index := (index dwi)(1 := pos F ! 1 - extent F)\<rparr>) M k"
  show ?case
  proof (cases ?inner)
    case (Inl e)
    with loop1_no_oob [of F _ M k] show ?thesis
      by (subst loop2.simps) auto
  next
    case (Inr res)
    obtain d1 M1 k1 where res: "res = (d1, M1, k1)" by (cases res) auto
    with Inr "1.IH" show ?thesis
      by (subst loop2.simps) auto
  qed
qed

lemma load_data_no_oob: "load_data F dwi \<noteq> Inl OutOfBoundsRead"
  using loop2_no_oob [of "F\<lparr>pos := [index dwi 0, index dwi 1, index dwi 2]\<rparr>"]
  by (auto simp: load_data_def load_loops_def Let_def split: sum.splits)

subsection \<open>The example inputs\<close>

lemma example_functor:
  "extent (DenoisingFunctor_init example_volume 3) = 1"
  "n_cols (DenoisingFunctor_init example_volume 3) = 27"
  "m_rows (DenoisingFunctor_init example_volume 3) = 1"
  by (simp_all add: DenoisingFunctor_init_def Let_def example_volume_def signed_divide_int_def)

lemma one_channel_functor:
  "m_rows (DenoisingFunctor_init example_volume 5) = 1"
  "n_cols (DenoisingFunctor_init example_volume 5) = 125"
  "r_rank (DenoisingFunctor_init example_volume 5) = 1"
  by (simp_all add: DenoisingFunctor_init_def Let_def example_volume_def)

lemma two_channel_functor:
  "m_rows (DenoisingFunctor_init two_channel_volume 5) = 2"
  "n_cols (DenoisingFunctor_init two_channel_volume 5) = 125"
  "r_rank (DenoisingFunctor_init two_channel_volume 5) = 2"
  by (simp_all add: DenoisingFunctor_init_def Let_def two_channel_volume_def)

subsection \<open>Claims about the window extractor\<close>

text \<open>
  Claim C1, as amended. The extractor never reads the image outside the volume, for any
  functor state. For an extent \<open>e \<ge> 0\<close> and a matrix of \<open>(2e+1)\<^sup>3\<close> columns it returns a
  matrix that still has all \<open>n\<close> columns: the column of the offset \<open>(dx, dy, dz)\<close>, at
  the index the scan order gives it, holds the samples of that position when it lies in
  the volume and is left zero when it does not. Out-of-volume neighbours are zero-filled,
  not skipped.
\<close>

theorem load_data_zero_fills:
  "load_data F dwi \<noteq> Inl OutOfBoundsRead \<and>
   (0 \<le> extent F \<and> int (n_cols F) = (2 * extent F + 1) ^ 3 \<longrightarrow>
      (\<exists>F'. load_data F dwi = Inr (F', dwi) \<and> length (X_mat F') = n_cols F \<and>
         (\<forall>dx dy dz. - extent F \<le> dx \<and> dx \<le> extent F \<and> - extent F \<le> dy \<and> dy \<le> extent F
              \<and> - extent F \<le> dz \<and> dz \<le> extent F \<longrightarrow>
            X_mat F' ! column_index (extent F) dx dy dz =
              (if in_volume dwi (index dwi 0 + dx) (index dwi 1 + dy) (index dwi 2 + dz)
               then voxel dwi (index dwi 0 + dx) (index dwi 1 + dy) (index dwi 2 + dz)
               else replicate (m_rows F) 0))))"
proof (intro conjI impI)
  show "load_data F dwi \<noteq> Inl OutOfBoundsRead" by (rule load_data_no_oob)
next
  assume h: "0 \<le> extent F \<and> int (n_cols F) = (2 * extent F + 1) ^ 3"
  let ?zc = "replicate (m_rows F) (0::real)"
  let ?X = "window dwi (extent F) ?zc"
  let ?F' = "F\<lparr>pos := [index dwi 0, index dwi 1, index dwi 2], X_mat := ?X\<rparr>"
  have "int (nat (2 * extent F + 1) ^ 3) = (2 * extent F + 1) ^ 3"
    using h by simp
  with h have n: "nat (2 * extent F + 1) ^ 3 = n_cols F"
    by (metis nat_int)
  then have le: "nat (2 * extent F + 1) ^ 3 \<le> n_cols F" by simp
  have run: "load_data F dwi = Inr (?F', dwi)"
    using load_data_run [OF le, of dwi] n by simp
  have len: "length (X_mat ?F') = n_cols F"
    using n by (simp add: length_window)
  have cols: "X_mat ?F' ! column_index (extent F) dx dy dz =
        (if in_volume dwi (index dwi 0 + dx) (index dwi 1 + dy) (index dwi 2 + dz)
         then voxel dwi (index dwi 0 + dx) (index dwi 1 + dy) (index dwi 2 + dz)
         else replicate (m_rows F) 0)"
    if "- extent F \<le> dx \<and> dx \<le> extent F \<and> - extent F \<le> dy \<and> dy \<le> extent F
              \<and> - extent F \<le> dz \<and> dz \<le> extent F" for dx dy dz
    using nth_window_offset [of "extent F" dx dy dz dwi ?zc] that
    by (simp add: column_at_def)
  from run len cols show "\<exists>F'. load_data F dwi = Inr (F', dwi) \<and> length (X_mat F') = n_cols F \<and>
         (\<forall>dx dy dz. - extent F \<le> dx \<and> dx \<le> extent F \<and> - extent F \<le> dy \<and> dy \<le> extent F
              \<and> - extent F \<le> dz \<and> dz \<le> extent F \<longrightarrow>
            X_mat F' ! column_index (extent F) dx dy dz =
              (if in_volume dwi (index dwi 0 + dx) (index dwi 1 + dy) (index dwi 2 + dz)
               then voxel dwi (index dwi 0 + dx) (index dwi 1 + dy) (index dwi 2 + dz)
               else replicate (m_rows F) 0))"
    by blast
qed

text \<open>
  Witness for C1: the corner \<open>(0, 0, 0)\<close> of the 2 x 2 x 2 volume, window size 3.
\<close>

theorem load_data_zero_fills_witness:
  "\<exists>F'. load_data (DenoisingFunctor_init example_volume 3) example_volume = Inr (F', example_volume)
     \<and> length (X_mat F') = 27
     \<and> X_mat F' ! 13 = [1] \<and> X_mat F' ! 14 = [2] \<and> X_mat F' ! 12 = [0]"
proof -
  let ?F = "DenoisingFunctor_init example_volume 3"
  have h: "0 \<le> extent ?F \<and> int (n_cols ?F) = (2 * extent ?F + 1) ^ 3"
    by (simp add: example_functor)
  from load_data_zero_fills [of ?F example_volume] h
  obtain F' where run: "load_data ?F example_volume = Inr (F', example_volume)"
    and len: "length (X_mat F') = n_cols ?F"
    and cols: "\<And>dx dy dz. - extent ?F \<le> dx \<and> dx \<le> extent ?F \<and> - extent ?F \<le> dy \<and> dy \<le> extent ?F
              \<and> - extent ?F \<le> dz \<and> dz \<le> extent ?F \<Longrightarrow>
            X_mat F' ! column_index (extent ?F) dx dy dz =
              (if in_volume example_volume (index example_volume 0 + dx) (index example_volume 1 + dy)
                    (index example_volume 2 + dz)
               then voxel example_volume (index example_volume 0 + dx) (index example_volume 1 + dy)
                    (index example_volume 2 + dz)
               else replicate (m_rows ?F) 0)"
    by blast
  have c13: "X_mat F' ! 13 = [1]"
    using cols [of 0 0 0, unfolded example_functor]
    by (simp add: column_index_def in_volume_def example_volume_def)
  have c14: "X_mat F' ! 14 = [2]"
    using cols [of 1 0 0, unfolded example_functor]
    by (simp add: column_index_def in_volume_def example_volume_def)
  have c12: "X_mat F' ! 12 = [0]"
    using cols [of "-1" 0 0, unfolded example_functor]
    by (simp add: column_index_def in_volume_def example_volume_def)
  from run len c13 c14 c12 show ?thesis
    by (auto simp: example_functor)
qed

text \<open>
  Counterexample to claim C1 as stated: at the corner of the 2 x 2 x 2 volume the
  window of size 3 has 8 positions inside the volume, and the matrix still has
  \<open>27 = 3\<^sup>3\<close> columns, 19 of them zero.
\<close>

theorem load_data_skips_counterexample:
  "map_sum id (\<lambda>res. X_mat (fst res))
       (load_data (DenoisingFunctor_init example_volume 3) example_volume) =
     Inr [[0], [0], [0], [0], [0], [0], [0], [0], [0],
          [0], [0], [0], [0], [1], [2], [0], [3], [4],
          [0], [0], [0], [0], [5], [6], [0], [7], [8]]"
proof -
  let ?F = "DenoisingFunctor_init example_volume 3"
  have le: "nat (2 * extent ?F + 1) ^ 3 \<le> n_cols ?F"
    by (simp add: example_functor)
  have u: "[- 1 .. 1 :: int] = [- 1, 0, 1]"
    by (simp add: upto.simps)
  have w: "window example_volume 1 [0] =
         [[0], [0], [0], [0], [0], [0], [0], [0], [0],
          [0], [0], [0], [0], [1], [2], [0], [3], [4],
          [0], [0], [0], [0], [5], [6], [0], [7], [8]]"
    by (simp add: window_def column_at_def in_volume_def example_volume_def u)
  show ?thesis
    unfolding load_data_run [OF le, of example_volume] example_functor
    using w by simp
qed

text \<open>
  Claim C9. Whenever the extractor returns, the image it hands back is the image it was
  given: the three spatial indices are back at the centre and nothing else changed. It
  does return whenever the matrix has a column for each of the \<open>(2e+1)\<^sup>3\<close> offsets.
\<close>

theorem load_data_restores_cursor:
  "(\<forall>F' dwi'. load_data F dwi = Inr (F', dwi') \<longrightarrow> dwi' = dwi) \<and>
   (nat (2 * extent F + 1) ^ 3 \<le> n_cols F \<longrightarrow> (\<exists>F'. load_data F dwi = Inr (F', dwi)))"
proof (intro conjI allI impI)
  fix F' dwi'
  assume "load_data F dwi = Inr (F', dwi')"
  then show "dwi' = dwi" by (rule load_data_restores)
next
  assume "nat (2 * extent F + 1) ^ 3 \<le> n_cols F"
  from load_data_run [OF this, of dwi] show "\<exists>F'. load_data F dwi = Inr (F', dwi)"
    by blast
qed

text \<open>Witness for C9: the centre \<open>(1, 1, 1)\<close> of the 2 x 2 x 2 volume, window size 3.\<close>

theorem load_data_restores_cursor_witness:
  "\<exists>F' dwi'. load_data (DenoisingFunctor_init example_volume 3)
        (example_volume\<lparr>index := (\<lambda>a. 1)\<rparr>) = Inr (F', dwi')
     \<and> index dwi' 0 = 1 \<and> index dwi' 1 = 1 \<and> index dwi' 2 = 1"
proof -
  let ?F = "DenoisingFunctor_init example_volume 3"
  let ?d = "example_volume\<lparr>index := (\<lambda>a. 1)\<rparr>"
  note rc = load_data_restores_cursor [of ?F ?d]
  have "nat (2 * extent ?F + 1) ^ 3 \<le> n_cols ?F"
    by (simp add: example_functor)
  with rc obtain F' where run: "load_data ?F ?d = Inr (F', ?d)" by blast
  with rc have "?d = ?d" by blast
  with run show ?thesis by (intro exI [of _ F'] exI [of _ ?d]) simp
qed

text \<open>
  Claim C10. For an odd, positive window size \<open>s\<close> accepted by the option (at most 50),
  \<open>(2 (s/2) + 1)\<^sup>3 = s\<^sup>3 = n\<close>; the three loops end without a column access out of
  range, with \<open>k = n\<close> after \<open>n\<close> iterations; and column \<open>n/2\<close> is the column of the
  centre position.
\<close>

theorem load_data_columns_in_range:
  assumes "0 < s" "odd s" "s \<le> 50"
    and "extent F = extent (DenoisingFunctor_init dwi0 s)"
    and "n_cols F = n_cols (DenoisingFunctor_init dwi0 s)"
  shows "(2 * (s sdiv 2) + 1) ^ 3 = s ^ 3 \<and> int (n_cols F) = s ^ 3 \<and>
     (\<exists>dwi' M'. load_loops F dwi = Inr (dwi', M', int (n_cols F)) \<and> length M' = n_cols F \<and>
        M' ! (n_cols F div 2) =
          column_at dwi (replicate (m_rows F) 0) (index dwi 0) (index dwi 1) (index dwi 2)) \<and>
     (\<exists>F'. load_data F dwi = Inr (F', dwi))"
proof -
  let ?zc = "replicate (m_rows F) (0::real)"
  have e: "extent F = s sdiv 2" and n: "n_cols F = nat (s * s * s)"
    using assms(4,5) by (simp_all add: DenoisingFunctor_init_def Let_def)
  have w: "2 * extent F + 1 = s" and e0: "0 \<le> extent F"
    using odd_window [OF assms(1,2)] e by simp_all
  have cube: "(2 * (s sdiv 2) + 1) ^ 3 = s ^ 3"
    using w e by simp
  have n3: "int (n_cols F) = s ^ 3"
    using n assms(1) by (simp add: power3_eq_cube)
  have nw: "nat (2 * extent F + 1) ^ 3 = n_cols F"
    unfolding w using n assms(1) by (simp add: power3_eq_cube nat_mult_distrib)
  then have le: "nat (2 * extent F + 1) ^ 3 \<le> n_cols F" by simp
  from load_loops_run [OF le, of dwi] obtain dwi' where
    run: "load_loops F dwi = Inr (dwi', window dwi (extent F) ?zc, int (n_cols F))"
    using nw by auto
  have mid: "n_cols F div 2 = column_index (extent F) 0 0 0"
    using centre_column [OF e0] n3 w by (metis nat_int)
  have centre: "window dwi (extent F) ?zc ! (n_cols F div 2) =
      column_at dwi ?zc (index dwi 0) (index dwi 1) (index dwi 2)"
    unfolding mid using nth_window_offset [of "extent F" 0 0 0 dwi ?zc] e0 by simp
  have len: "length (window dwi (extent F) ?zc) = n_cols F"
    using nw by (simp add: length_window)
  from load_data_run [OF le, of dwi] have "\<exists>F'. load_data F dwi = Inr (F', dwi)" by blast
  with cube n3 run centre len show ?thesis by blast
qed

text \<open>Witness for C10: window size 3 on the 2 x 2 x 2 volume.\<close>

theorem load_data_columns_in_range_witness:
  "(2 * ((3::int) sdiv 2) + 1) ^ 3 = 3 ^ 3 \<and>
   (\<exists>dwi' M'. load_loops (DenoisingFunctor_init example_volume 3) example_volume = Inr (dwi', M', 27)
        \<and> length M' = 27 \<and> M' ! 13 = [1]) \<and>
   (\<exists>F'. load_data (DenoisingFunctor_init example_volume 3) example_volume = Inr (F', example_volume))"
proof -
  let ?F = "DenoisingFunctor_init example_volume 3"
  have c: "column_at example_volume (replicate (m_rows ?F) 0) (index example_volume 0)
      (index example_volume 1) (index example_volume 2) = [1]"
    by (simp add: column_at_def in_volume_def example_volume_def)
  have "(0::int) < 3" "odd (3::int)" "(3::int) \<le> 50" by simp_all
  from load_data_columns_in_range [OF this refl refl, of example_volume example_volume]
  show ?thesis
    unfolding c unfolding example_functor by simp
qed

section \<open>The component selection\<close>

lemma sigma_spec_eq:
  "sigma1_sq_spec F s p = sigsq1 F s p" "sigma2_sq_spec F s p = sigsq2 F s p"
  by (simp_all add: sigma1_sq_spec_def sigma2_sq_spec_def sigsq1_def sigsq2_def max_def not_less)

lemma select_loop_result:
  assumes "p0 \<le> r_rank F" "select_loop F s p0 x = (p, sq)"
  shows "p0 \<le> p \<and> p \<le> r_rank F \<and>
     (\<forall>q. p0 \<le> q \<and> q < p \<longrightarrow> \<not> sigsq2 F s q < sigsq1 F s q) \<and>
     (p < r_rank F \<longrightarrow> sigsq2 F s p < sigsq1 F s p \<and> sq = sigsq1 F s p)"
  using assms
proof (induction F s p0 x rule: select_loop.induct)
  case (1 F s p0 x)
  show ?case
  proof (cases "p0 < r_rank F")
    case True
    show ?thesis
    proof (cases "sigsq2 F s p0 < sigsq1 F s p0")
      case brk: True
      with True "1.prems" show ?thesis
        by (subst (asm) select_loop.simps) auto
    next
      case False
      with True "1.prems" have rest: "select_loop F s (p0 + 1) (sigsq1 F s p0) = (p, sq)"
        by (subst (asm) select_loop.simps) simp
      from True have "p0 + 1 \<le> r_rank F" by simp
      from "1.IH" [OF True False this rest]
      have ih: "p0 + 1 \<le> p" "p \<le> r_rank F"
        "\<forall>q. p0 + 1 \<le> q \<and> q < p \<longrightarrow> \<not> sigsq2 F s q < sigsq1 F s q"
        "p < r_rank F \<longrightarrow> sigsq2 F s p < sigsq1 F s p \<and> sq = sigsq1 F s p"
        by auto
      have "\<not> sigsq2 F s q < sigsq1 F s q" if q: "p0 \<le> q \<and> q < p" for q
      proof (cases "q = p0")
        case True
        with False show ?thesis by simp
      next
        case neq: False
        with q have "p0 + 1 \<le> q \<and> q < p" by simp
        with ih(3) show ?thesis by blast
      qed
      with ih show ?thesis by simp
    qed
  next
    case False
    with "1.prems" show ?thesis
      by (subst (asm) select_loop.simps) auto
  qed
qed

text \<open>
  The two theorems that follow are about the functor states the constructor makes,
  \<open>r = min(m, n)\<close>, and the \<open>r\<close> singular values of the thin decomposition. There
  \<open>m - p\<close>, \<open>r - p\<close> and \<open>n\<close> are positive at every index \<open>p < r\<close>, so that nothing in
  the loop divides by zero.
\<close>

text \<open>
  Claim C2, as amended. The formulas of the loop are those of the claim. The loop stops
  at the first index \<open>p\<close> where \<open>\<sigma>\<^sub>2\<^sup>2 < \<sigma>\<^sub>1\<^sup>2\<close> holds strictly, or at \<open>r\<close> when there is none;
  the components \<open>0..p-1\<close> are retained and the components \<open>p..r-1\<close> are set to zero. An
  index where the two estimators are equal does not stop the scan.
\<close>

theorem select_components_first_strict:
  assumes "length s = r_rank F" and "r_rank F = min (m_rows F) (n_cols F)"
  shows "\<exists>p sg. select_components F s x = (p, take p s @ replicate (r_rank F - p) 0, sg) \<and>
     p \<le> r_rank F \<and>
     (\<forall>q<p. \<not> sigma2_sq_spec F s q < sigma1_sq_spec F s q) \<and>
     (p < r_rank F \<longrightarrow> sigma2_sq_spec F s p < sigma1_sq_spec F s p) \<and>
     (\<forall>i<r_rank F. (take p s @ replicate (r_rank F - p) 0) ! i = (if i < p then s ! i else 0))"
proof -
  obtain p sq where run: "select_loop F s 0 x = (p, sq)" by (cases "select_loop F s 0 x")
  note res = select_loop_result [OF _ run, simplified]
  from res have le: "p \<le> r_rank F" by simp
  then have "length s - (r_rank F - p) = p" using assms(1) by simp
  then have comp: "select_components F s x =
      (p, take p s @ replicate (r_rank F - p) 0, if p = r_rank F then None else Some (sqrt sq))"
    by (simp add: select_components_def run)
  have cols: "(take p s @ replicate (r_rank F - p) 0) ! i = (if i < p then s ! i else 0)"
    if "i < r_rank F" for i
    using that le assms(1) by (simp add: nth_append)
  from comp le res cols show ?thesis
    unfolding sigma_spec_eq by blast
qed

text \<open>
  Witness for C2: one channel, window size 5, singular value 5; the scan stops at
  \<open>p = 0\<close> and the component is set to zero.
\<close>

theorem select_components_first_strict_witness:
  "\<exists>sg. select_components (DenoisingFunctor_init example_volume 5) [5] 7 = (0, [0], sg)"
proof -
  let ?F = "DenoisingFunctor_init example_volume 5"
  have f1: "sigsq1 ?F [5] 0 = 1 / 5" and f2: "sigsq2 ?F [5] 0 = 0"
    by (simp_all add: sigsq1_def sigsq2_def clam_def lam_def gam_def one_channel_functor)
  have len: "length [5::real] = r_rank ?F"
    by (simp add: one_channel_functor)
  have rk: "r_rank ?F = min (m_rows ?F) (n_cols ?F)"
    by (simp add: one_channel_functor)
  from select_components_first_strict [OF len rk, of 7]
  obtain p sg where run: "select_components ?F [5] 7 = (p, take p [5] @ replicate (r_rank ?F - p) 0, sg)"
    and first: "\<forall>q<p. \<not> sigma2_sq_spec ?F [5] q < sigma1_sq_spec ?F [5] q"
    by blast
  have "p = 0"
  proof (rule ccontr)
    assume "p \<noteq> 0"
    with first have "\<not> sigma2_sq_spec ?F [5] 0 < sigma1_sq_spec ?F [5] 0" by simp
    then show False by (simp add: sigma_spec_eq f1 f2)
  qed
  with run show ?thesis by (simp add: one_channel_functor)
qed

text \<open>
  Counterexample to claim C2 as stated. For a homogeneous window of a two-channel
  image (window size 5) the centred matrix is zero and so are its singular values; then
  \<open>\<sigma>\<^sub>2\<^sup>2 = \<sigma>\<^sub>1\<^sup>2 = 0\<close> at every index and the first index with \<open>\<sigma>\<^sub>2\<^sup>2 \<le> \<sigma>\<^sub>1\<^sup>2\<close> is 0, but the
  loop, which breaks on \<^verbatim>\<open>sigsq2 < sigsq1\<close> only, runs to \<open>p = r = 2\<close>.
\<close>

theorem select_components_equality_counterexample:
  "select_components (DenoisingFunctor_init two_channel_volume 5) [0, 0] 0 = (2, [0, 0], None) \<and>
   boundary_spec (DenoisingFunctor_init two_channel_volume 5) [0, 0] = 0"
proof -
  let ?F = "DenoisingFunctor_init two_channel_volume 5"
  have l: "lam ?F [0, 0] = [0, 0]"
    by (simp add: lam_def)
  have c: "clam ?F [0, 0] = [0, 0]"
    by (simp add: clam_def l two_channel_functor numeral_2_eq_2)
  have s1: "sigsq1 ?F [0, 0] 0 = 0" "sigsq1 ?F [0, 0] (Suc 0) = 0"
    by (simp_all add: sigsq1_def c)
  have s2: "sigsq2 ?F [0, 0] 0 = 0" "sigsq2 ?F [0, 0] (Suc 0) = 0"
    by (simp_all add: sigsq2_def l two_channel_functor)
  have "select_loop ?F [0, 0] (Suc (Suc 0)) 0 = (2, 0)"
    by (subst select_loop.simps) (simp add: two_channel_functor)
  then have "select_loop ?F [0, 0] (Suc 0) 0 = (2, 0)"
    by (subst select_loop.simps) (simp add: two_channel_functor s1 s2)
  then have "select_loop ?F [0, 0] 0 0 = (2, 0)"
    by (subst select_loop.simps) (simp add: two_channel_functor s1 s2)
  then have code: "select_components ?F [0, 0] 0 = (2, [0, 0], None)"
    by (simp add: select_components_def two_channel_functor)
  have "[0 ..< r_rank ?F] = [0, Suc 0]"
    by (simp add: two_channel_functor upt_rec)
  then have spec: "boundary_spec ?F [0, 0] = 0"
    by (simp add: boundary_spec_def sigma_spec_eq s1 s2)
  from code spec show ?thesis ..
qed

text \<open>
  Claim C3, as amended. When \<open>\<sigma>\<^sub>2\<^sup>2 < \<sigma>\<^sub>1\<^sup>2\<close> (\<^verbatim>\<open>sigsq2 < sigsq1\<close>) holds strictly at no
  \<open>p < r\<close>, the loop runs out without a break: \<open>sigma\<close> is NaN and the singular values
  are returned as they were, all \<open>r\<close> of them. Otherwise the loop breaks at the first
  \<open>p\<close> where it holds strictly, and \<open>sigma\<close> is the square root of \<^verbatim>\<open>sigsq1\<close> at that
  \<open>p\<close>, whatever the unset \<^verbatim>\<open>sigsq1\<close> was before the loop. An index where the two
  estimators are equal counts for the first case, not the second.
\<close>

theorem degenerate_when_loop_exhausts:
  assumes "length s = r_rank F" and "r_rank F = min (m_rows F) (n_cols F)"
  shows "((\<forall>q<r_rank F. \<not> sigsq2 F s q < sigsq1 F s q) \<longrightarrow>
            select_components F s x = (r_rank F, s, None)) \<and>
         ((\<exists>q<r_rank F. sigsq2 F s q < sigsq1 F s q) \<longrightarrow>
            (\<exists>p<r_rank F. sigsq2 F s p < sigsq1 F s p \<and>
               (\<forall>q<p. \<not> sigsq2 F s q < sigsq1 F s q) \<and>
               select_components F s x =
                 (p, take p s @ replicate (r_rank F - p) 0, Some (sqrt (sigsq1 F s p)))))"
proof -
  obtain p sq where run: "select_loop F s 0 x = (p, sq)" by (cases "select_loop F s 0 x")
  note res = select_loop_result [OF _ run, simplified]
  have comp: "select_components F s x =
      (p, take (length s - (r_rank F - p)) s @ replicate (r_rank F - p) 0,
       if p = r_rank F then None else Some (sqrt sq))"
    by (simp add: select_components_def run)
  show ?thesis
  proof (intro conjI impI)
    assume none: "\<forall>q<r_rank F. \<not> sigsq2 F s q < sigsq1 F s q"
    with res have "p = r_rank F" by (metis le_neq_implies_less)
    with comp assms(1) show "select_components F s x = (r_rank F, s, None)" by simp
  next
    assume "\<exists>q<r_rank F. sigsq2 F s q < sigsq1 F s q"
    with res have less: "p < r_rank F"
      by (metis le_neq_implies_less)
    with res have sq: "sq = sigsq1 F s p" and brk: "sigsq2 F s p < sigsq1 F s p"
      and first: "\<forall>q<p. \<not> sigsq2 F s q < sigsq1 F s q"
      by auto
    have "length s - (r_rank F - p) = p" using less assms(1) by simp
    with comp less sq have "select_components F s x =
        (p, take p s @ replicate (r_rank F - p) 0, Some (sqrt (sigsq1 F s p)))"
      by simp
    with less brk first show "\<exists>p<r_rank F. sigsq2 F s p < sigsq1 F s p \<and>
               (\<forall>q<p. \<not> sigsq2 F s q < sigsq1 F s q) \<and>
               select_components F s x =
                 (p, take p s @ replicate (r_rank F - p) 0, Some (sqrt (sigsq1 F s p)))"
      by blast
  qed
qed

text \<open>
  Witness for C3, as amended: one channel and window size 5, with the singular value 0
  (the loop runs out) and with the singular value 5 (the loop breaks at \<open>p = 0\<close>).
\<close>

theorem degenerate_when_loop_exhausts_witness:
  "select_components (DenoisingFunctor_init example_volume 5) [0] 7 = (1, [0], None) \<and>
   select_components (DenoisingFunctor_init example_volume 5) [5] 7 = (0, [0], Some (sqrt (1 / 5)))"
proof -
  let ?F = "DenoisingFunctor_init example_volume 5"
  have z1: "sigsq1 ?F [0] 0 = 0" and z2: "sigsq2 ?F [0] 0 = 0"
    by (simp_all add: sigsq1_def sigsq2_def clam_def lam_def one_channel_functor)
  have f1: "sigsq1 ?F [5] 0 = 1 / 5" and f2: "sigsq2 ?F [5] 0 = 0"
    by (simp_all add: sigsq1_def sigsq2_def clam_def lam_def gam_def one_channel_functor)
  have len: "length [0::real] = r_rank ?F" "length [5::real] = r_rank ?F"
    by (simp_all add: one_channel_functor)
  have rk: "r_rank ?F = min (m_rows ?F) (n_cols ?F)"
    by (simp add: one_channel_functor)
  have "\<forall>q<r_rank ?F. \<not> sigsq2 ?F [0] q < sigsq1 ?F [0] q"
    by (simp add: one_channel_functor z1 z2)
  with degenerate_when_loop_exhausts [OF len(1) rk, of 7]
  have a: "select_components ?F [0] 7 = (1, [0], None)"
    by (simp add: one_channel_functor)
  have "\<exists>q<r_rank ?F. sigsq2 ?F [5] q < sigsq1 ?F [5] q"
    by (simp add: one_channel_functor f1 f2)
  with degenerate_when_loop_exhausts [OF len(2) rk, of 7]
  have b: "select_components ?F [5] 7 = (0, [0], Some (sqrt (1 / 5)))"
    by (auto simp: one_channel_functor f1)
  from a b show ?thesis ..
qed

text \<open>
  Counterexample to claim C3 as stated. The claim's test fails where \<open>\<sigma>\<^sub>2\<^sup>2 \<le> \<sigma>\<^sub>1\<^sup>2\<close>. For the
  homogeneous window of the two-channel image (singular values 0, 0) it fails at
  \<open>p = 0\<close>, where both estimators are 0, so that the claim gives \<open>sigma = sqrt(0) = 0\<close>;
  the loop, which breaks on \<^verbatim>\<open>sigsq2 < sigsq1\<close> only, runs out and \<open>sigma\<close> is NaN.
\<close>

theorem degenerate_at_equality_counterexample:
  "sigma2_sq_spec (DenoisingFunctor_init two_channel_volume 5) [0, 0] 0
     \<le> sigma1_sq_spec (DenoisingFunctor_init two_channel_volume 5) [0, 0] 0 \<and>
   sqrt (sigma1_sq_spec (DenoisingFunctor_init two_channel_volume 5) [0, 0] 0) = 0 \<and>
   select_components (DenoisingFunctor_init two_channel_volume 5) [0, 0] 0 = (2, [0, 0], None)"
proof -
  let ?F = "DenoisingFunctor_init two_channel_volume 5"
  have l: "lam ?F [0, 0] = [0, 0]"
    by (simp add: lam_def)
  have c: "clam ?F [0, 0] = [0, 0]"
    by (simp add: clam_def l two_channel_functor numeral_2_eq_2)
  have s1: "sigsq1 ?F [0, 0] 0 = 0" "sigsq1 ?F [0, 0] (Suc 0) = 0"
    by (simp_all add: sigsq1_def c)
  have s2: "sigsq2 ?F [0, 0] 0 = 0" "sigsq2 ?F [0, 0] (Suc 0) = 0"
    by (simp_all add: sigsq2_def l two_channel_functor)
  have "select_loop ?F [0, 0] (Suc (Suc 0)) 0 = (2, 0)"
    by (subst select_loop.simps) (simp add: two_channel_functor)
  then have "select_loop ?F [0, 0] (Suc 0) 0 = (2, 0)"
    by (subst select_loop.simps) (simp add: two_channel_functor s1 s2)
  then have "select_loop ?F [0, 0] 0 0 = (2, 0)"
    by (subst select_loop.simps) (simp add: two_channel_functor s1 s2)
  then have code: "select_components ?F [0, 0] 0 = (2, [0, 0], None)"
    by (simp add: select_components_def two_channel_functor)
  from code show ?thesis
    by (simp add: sigma_spec_eq s1 s2)
qed

section \<open>The whole of \<^verbatim>\<open>operator()\<close>\<close>
















section \<open>The window size\<close>

text \<open>
  What the option and \<^verbatim>\<open>run\<close> do with a window size. Without the option the size is 5
  and the extent 2. A supplied size below 0 or above 50 is a configuration error before
  the functor exists. Every size from 1 to 50, odd or even, is passed on as it is, with
  the extent \<open>size / 2\<close> by integer division.
\<close>

lemma run_functor_window_size:
  "run_functor dwi None = Inr (DenoisingFunctor_init dwi 5) \<and>
   extent (DenoisingFunctor_init dwi 5) = 2 \<and>
   (v < 0 \<or> 50 < v \<longrightarrow> run_functor dwi (Some v) = Inl ConfigurationError) \<and>
   (0 < v \<and> v \<le> 50 \<longrightarrow>
      run_functor dwi (Some v) = Inr (DenoisingFunctor_init dwi v) \<and>
      extent (DenoisingFunctor_init dwi v) = v div 2)"
  by (auto simp: run_functor_def size_option_def type_integer_def get_option_value_def
      DEFAULT_SIZE_def DenoisingFunctor_init_def Let_def signed_divide_int_def)

text \<open>
  Claim C6, at inputs where the code departs from it. Claim: a window size that is not
  positive is a configuration error, and an odd window size is enforced. The sizes 2 and
  0 pass the declared range \<^verbatim>\<open>type_integer (0, 50)\<close> and reach the functor unchanged.
  With size 2 the matrix has \<open>2\<^sup>3 = 8\<close> columns and the loops visit \<open>3\<^sup>3 = 27\<close> offsets; with
  size 0 the matrix has no column and the loops visit one offset. At the centre of a
  5 x 5 x 5 volume every offset is in the volume, and the extractor assigns to a column
  the matrix does not have.
\<close>

theorem run_functor_even_size_overruns:
  "run_functor interior_volume (Some 2) = Inr (DenoisingFunctor_init interior_volume 2) \<and>
   load_data (DenoisingFunctor_init interior_volume 2) interior_volume = Inl ColumnOutOfRange \<and>
   run_functor interior_volume (Some 0) = Inr (DenoisingFunctor_init interior_volume 0) \<and>
   load_data (DenoisingFunctor_init interior_volume 0) interior_volume = Inl ColumnOutOfRange"
proof -
  have accepted: "run_functor interior_volume (Some 2) = Inr (DenoisingFunctor_init interior_volume 2)"
    "run_functor interior_volume (Some 0) = Inr (DenoisingFunctor_init interior_volume 0)"
    by (simp_all add: run_functor_def size_option_def type_integer_def get_option_value_def)
  have two: "load_data (DenoisingFunctor_init interior_volume 2) interior_volume = Inl ColumnOutOfRange"
    by (simp add: load_data_def load_loops_def Let_def DenoisingFunctor_init_def interior_volume_def
        signed_divide_int_def setZero_def loop2.simps loop1.simps loop0.simps visit_def row3_def
        is_out_of_bounds_def set_col_def)
  have zero: "load_data (DenoisingFunctor_init interior_volume 0) interior_volume = Inl ColumnOutOfRange"
    by (simp add: load_data_def load_loops_def Let_def DenoisingFunctor_init_def interior_volume_def
        setZero_def loop2.simps loop1.simps loop0.simps visit_def row3_def
        is_out_of_bounds_def set_col_def)
  from accepted two zero show ?thesis by simp
qed

section \<open>The thread count\<close>

text \<open>
  Claim C4, as amended. A call that finds a non-zero cached value returns it. Otherwise
  the first source present decides, in the order option, environment variable,
  configuration: the option's first value whatever it is, else the parsed environment
  variable or a configuration error when it does not parse, else the configuration entry
  with the hardware's count as its default. The value returned is the value of that
  source, zero included.
\<close>

theorem number_of_threads_order:
  "(cached \<noteq> 0 \<longrightarrow> number_of_threads P src cached = (Inr cached, cached)) \<and>
   (cached = 0 \<and> nthreads_opt src \<noteq> [] \<longrightarrow>
      number_of_threads P src cached = (Inr (nthreads_opt src ! 0), nthreads_opt src ! 0)) \<and>
   (cached = 0 \<and> nthreads_opt src = [] \<and> MRTRIX_NTHREADS src = Some e \<and> P e = Some v \<longrightarrow>
      number_of_threads P src cached = (Inr v, v)) \<and>
   (cached = 0 \<and> nthreads_opt src = [] \<and> MRTRIX_NTHREADS src = Some e \<and> P e = None \<longrightarrow>
      number_of_threads P src cached = (Inl ConfigurationError, 0)) \<and>
   (cached = 0 \<and> nthreads_opt src = [] \<and> MRTRIX_NTHREADS src = None \<longrightarrow>
      number_of_threads P src cached =
        (Inr (size_t_of_int (get_int (NumberOfThreads src) (int_of_unsigned (hardware_concurrency src)))),
         size_t_of_int (get_int (NumberOfThreads src) (int_of_unsigned (hardware_concurrency src)))))"
  by (simp add: number_of_threads_def Let_def)

text \<open>Witness for C4: one call for each case of the order.\<close>

theorem number_of_threads_order_witness:
  "number_of_threads parse_zero_or_four
     \<lparr>nthreads_opt = [2], MRTRIX_NTHREADS = Some ''4'', NumberOfThreads = Some 6, hardware_concurrency = 8\<rparr> 3
     = (Inr 3, 3) \<and>
   number_of_threads parse_zero_or_four
     \<lparr>nthreads_opt = [2], MRTRIX_NTHREADS = Some ''4'', NumberOfThreads = Some 6, hardware_concurrency = 8\<rparr> 0
     = (Inr 2, 2) \<and>
   number_of_threads parse_zero_or_four
     \<lparr>nthreads_opt = [], MRTRIX_NTHREADS = Some ''4'', NumberOfThreads = Some 6, hardware_concurrency = 8\<rparr> 0
     = (Inr 4, 4) \<and>
   number_of_threads parse_zero_or_four
     \<lparr>nthreads_opt = [], MRTRIX_NTHREADS = Some ''four'', NumberOfThreads = Some 6, hardware_concurrency = 8\<rparr> 0
     = (Inl ConfigurationError, 0) \<and>
   number_of_threads parse_zero_or_four
     \<lparr>nthreads_opt = [], MRTRIX_NTHREADS = None, NumberOfThreads = Some 6, hardware_concurrency = 8\<rparr> 0
     = (Inr 6, 6) \<and>
   number_of_threads parse_zero_or_four
     \<lparr>nthreads_opt = [], MRTRIX_NTHREADS = None, NumberOfThreads = None, hardware_concurrency = 8\<rparr> 0
     = (Inr 8, 8)"
proof -
  let ?S = "\<lambda>os ev cf. \<lparr>nthreads_opt = os, MRTRIX_NTHREADS = ev, NumberOfThreads = cf,
    hardware_concurrency = 8\<rparr>"
  show ?thesis
    using number_of_threads_order [of 3 parse_zero_or_four "?S [2] (Some ''4'') (Some 6)" "''4''" 4]
      number_of_threads_order [of 0 parse_zero_or_four "?S [2] (Some ''4'') (Some 6)" "''4''" 4]
      number_of_threads_order [of 0 parse_zero_or_four "?S [] (Some ''4'') (Some 6)" "''4''" 4]
      number_of_threads_order [of 0 parse_zero_or_four "?S [] (Some ''four'') (Some 6)" "''four''" 4]
      number_of_threads_order [of 0 parse_zero_or_four "?S [] None (Some 6)" "''4''" 4]
      number_of_threads_order [of 0 parse_zero_or_four "?S [] None None" "''4''" 4]
    by (simp add: parse_zero_or_four_def size_t_of_int_def get_int_def int_of_unsigned_def)
qed

text \<open>
  Counterexample to claim C4 as stated: an option value of 0 is used, and so is an
  environment value of 0; both calls return 0.
\<close>

theorem number_of_threads_zero_counterexample:
  "number_of_threads parse_zero_or_four
     \<lparr>nthreads_opt = [0], MRTRIX_NTHREADS = Some ''4'', NumberOfThreads = Some 6, hardware_concurrency = 8\<rparr> 0
     = (Inr 0, 0) \<and>
   number_of_threads parse_zero_or_four
     \<lparr>nthreads_opt = [], MRTRIX_NTHREADS = Some ''0'', NumberOfThreads = Some 6, hardware_concurrency = 8\<rparr> 0
     = (Inr 0, 0)"
  by (simp add: number_of_threads_def parse_zero_or_four_def)

text \<open>
  Claim C5, as amended. A call that returns a value leaves it in the cache, and a second
  call with the same sources returns the same value. When the value is not zero, the
  second call returns it whatever the sources then are: it only reads the cache.
\<close>

theorem number_of_threads_cached:
  assumes "number_of_threads P src cached = (Inr v, cached')"
  shows "cached' = v \<and> number_of_threads P src cached' = (Inr v, cached') \<and>
     (v \<noteq> 0 \<longrightarrow> (\<forall>P' src'. number_of_threads P' src' cached' = (Inr v, cached')))"
  using assms
  by (auto simp: number_of_threads_def Let_def split: if_splits option.splits)

text \<open>
  Witness for C5: the environment gives 4; the next call, with other sources, returns 4.
\<close>

theorem number_of_threads_cached_witness:
  "number_of_threads parse_zero_or_four
     \<lparr>nthreads_opt = [], MRTRIX_NTHREADS = Some ''4'', NumberOfThreads = Some 6, hardware_concurrency = 8\<rparr> 0
     = (Inr 4, 4) \<and>
   number_of_threads parse_zero_or_four
     \<lparr>nthreads_opt = [2], MRTRIX_NTHREADS = Some ''four'', NumberOfThreads = None, hardware_concurrency = 1\<rparr> 4
     = (Inr 4, 4)"
proof -
  let ?S = "\<lparr>nthreads_opt = [], MRTRIX_NTHREADS = Some ''4'', NumberOfThreads = Some 6,
    hardware_concurrency = 8\<rparr>"
  have first: "number_of_threads parse_zero_or_four ?S 0 = (Inr 4, 4)"
    by (simp add: number_of_threads_def parse_zero_or_four_def)
  from number_of_threads_cached [OF first] first show ?thesis by simp
qed

text \<open>
  Counterexample to claim C5 as stated: the environment gives 0 and the call returns 0;
  the environment then gives 4, and the next call returns 4.
\<close>

theorem number_of_threads_recomputed_counterexample:
  "number_of_threads parse_zero_or_four
     \<lparr>nthreads_opt = [], MRTRIX_NTHREADS = Some ''0'', NumberOfThreads = Some 6, hardware_concurrency = 8\<rparr> 0
     = (Inr 0, 0) \<and>
   number_of_threads parse_zero_or_four
     \<lparr>nthreads_opt = [], MRTRIX_NTHREADS = Some ''4'', NumberOfThreads = Some 6, hardware_concurrency = 8\<rparr> 0
     = (Inr 4, 4)"
  by (simp add: number_of_threads_def parse_zero_or_four_def)

section \<open>The backend\<close>

text \<open>
  Claim C8. The constructor installs the two wrappers and records the functions that were
  installed before; a call through a wrapper reaches the recorded function; the
  destructor after the constructor leaves \<^verbatim>\<open>print\<close> and \<^verbatim>\<open>report_to_user_func\<close> as
  they were.
\<close>

theorem Backend_roundtrip:
  "print (Backend_ctor g) = thread_print_func \<and>
   report_to_user_func (Backend_ctor g) = thread_report_to_user_func \<and>
   previous_print_func (Backend_ctor g) = print g \<and>
   previous_report_to_user_func (Backend_ctor g) = report_to_user_func g \<and>
   callee (Backend_ctor g) (print (Backend_ctor g)) = print g \<and>
   callee (Backend_ctor g) (report_to_user_func (Backend_ctor g)) = report_to_user_func g \<and>
   print (Backend_dtor (Backend_ctor g)) = print g \<and>
   report_to_user_func (Backend_dtor (Backend_ctor g)) = report_to_user_func g"
  by (simp add: Backend_ctor_def Backend_dtor_def callee_def)

text \<open>
  With the reference counting of the spec, a release after an acquire restores both
  pointers and the count from any state.
\<close>

lemma acquire_release:
  "print (release (acquire g)) = print g"
  "report_to_user_func (release (acquire g)) = report_to_user_func g"
  "refcount (release (acquire g)) = refcount g"
  by (simp_all add: acquire_def release_def Backend_ctor_def Backend_dtor_def Let_def)

end
